theory Spec2Isabelle
  imports Complex_Main
begin

section \<open>JavaScript strings and values\<close>

text \<open>
  A string is a list of code units, and a \<open>char\<close> stands for the code unit of the same
  number: the model covers the code units below 256, that is Basic Latin and Latin-1. The
  built-in string methods the pipeline calls are written out below for this range.
\<close>

definition lower_char :: "char \<Rightarrow> char" where
  \<comment> \<open>the letters A to Z, and in Latin-1 the letters from 192 to 222 but the sign at 215,
      have their lower-case form 32 places on\<close>
  "lower_char c = (let n = (of_char c :: nat) in
     if (65 \<le> n \<and> n \<le> 90) \<or> (192 \<le> n \<and> n \<le> 222 \<and> n \<noteq> 215) then char_of (n + 32) else c)"

definition upper_char :: "char \<Rightarrow> char" where
  \<comment> \<open>the converse, on the letters a to z and from 224 to 254 but the sign at 247. The
      upper-case forms of the code units 181 and 255 lie beyond 255: the model leaves these
      two unchanged, and only the \<open>name\<close> of a record depends on it.\<close>
  "upper_char c = (let n = (of_char c :: nat) in
     if (97 \<le> n \<and> n \<le> 122) \<or> (224 \<le> n \<and> n \<le> 254 \<and> n \<noteq> 247) then char_of (n - 32) else c)"

definition toLowerCase :: "string \<Rightarrow> string" where
  "toLowerCase s = map lower_char s"

definition toUpperCase :: "string \<Rightarrow> string" where
  \<comment> \<open>the sharp s, code unit 223, becomes the two letters SS\<close>
  "toUpperCase s = concat (map (\<lambda>c. if (of_char c :: nat) = 223 then ''SS'' else [upper_char c]) s)"

definition is_space :: "char \<Rightarrow> bool" where
  \<comment> \<open>what \<open>String.prototype.trim\<close> strips below 256: TAB, LF, VT, FF, CR, the space and
      the no-break space\<close>
  "is_space c = (let n = (of_char c :: nat) in (9 \<le> n \<and> n \<le> 13) \<or> n = 32 \<or> n = 160)"

definition is_digit :: "char \<Rightarrow> bool" where
  \<comment> \<open>the regex class \<open>\d\<close>\<close>
  "is_digit c = (let n = (of_char c :: nat) in 48 \<le> n \<and> n \<le> 57)"

definition is_word_char :: "char \<Rightarrow> bool" where
  \<comment> \<open>the regex class \<open>\w\<close>: letters, digits and the underscore\<close>
  "is_word_char c = (let n = (of_char c :: nat) in
     (48 \<le> n \<and> n \<le> 57) \<or> (65 \<le> n \<and> n \<le> 90) \<or> n = 95 \<or> (97 \<le> n \<and> n \<le> 122))"

definition trim :: "string \<Rightarrow> string" where
  "trim s = rev (dropWhile is_space (rev (dropWhile is_space s)))"

fun js_includes :: "string \<Rightarrow> string \<Rightarrow> bool" where
  \<comment> \<open>\<open>s.includes(k)\<close>\<close>
  "js_includes [] k = (k = [])"
| "js_includes (c # cs) k = (take (length k) (c # cs) = k \<or> js_includes cs k)"

fun js_join :: "string \<Rightarrow> string list \<Rightarrow> string" where
  \<comment> \<open>\<open>xs.join(sep)\<close>\<close>
  "js_join sep [] = []"
| "js_join sep [x] = x"
| "js_join sep (x # y # ys) = x @ sep @ js_join sep (y # ys)"

fun split_char :: "char \<Rightarrow> string \<Rightarrow> string \<Rightarrow> string list" where
  \<comment> \<open>\<open>s.split(sep)\<close> for a one-character separator; the second argument is the piece read so far\<close>
  "split_char sep cur [] = [cur]"
| "split_char sep cur (c # cs) =
     (if c = sep then cur # split_char sep [] cs else split_char sep (cur @ [c]) cs)"

definition is_sep :: "char \<Rightarrow> bool" where
  \<comment> \<open>the class \<open>[,;\n]\<close>\<close>
  "is_sep c = (c = CHR '','' \<or> c = CHR '';'' \<or> c = CHR 0x0A)"

function split_seps :: "string \<Rightarrow> string \<Rightarrow> string list" where
  \<comment> \<open>\<open>s.split(/[,;\n]+/)\<close>: a maximal run of separators ends a piece\<close>
  "split_seps cur [] = [cur]"
| "split_seps cur (c # cs) =
     (if is_sep c then cur # split_seps [] (dropWhile is_sep cs) else split_seps (cur @ [c]) cs)"
  by pat_completeness auto
termination
  by (relation "measure (\<lambda>(cur, s). length s)")
     (auto simp: less_Suc_eq_le length_dropWhile_le)

definition truthy_str :: "string option \<Rightarrow> bool" where
  \<comment> \<open>a string operand of \<open>||\<close>: \<open>undefined\<close> and the empty string are falsy\<close>
  "truthy_str v = (case v of None \<Rightarrow> False | Some s \<Rightarrow> s \<noteq> [])"

datatype score_val = Num int | Null | Undefined

definition truthy_score :: "score_val \<Rightarrow> bool" where
  "truthy_score v = (case v of Num n \<Rightarrow> n \<noteq> 0 | Null \<Rightarrow> False | Undefined \<Rightarrow> False)"

definition js_le :: "score_val \<Rightarrow> int \<Rightarrow> bool" where
  \<comment> \<open>\<open>v <= k\<close>: \<open>null\<close> converts to 0, \<open>undefined\<close> to NaN, which compares false\<close>
  "js_le v k = (case v of Num n \<Rightarrow> n \<le> k | Null \<Rightarrow> 0 \<le> k | Undefined \<Rightarrow> False)"

datatype js_error = TypeError | NetworkError | SyntaxError | ParseError

section \<open>The curated ingredient database\<close>

record curated_entry =
  baseScore :: int
  category :: string
  concerns :: "string list"
  entry_benefits :: "string list"
  entry_scientificName :: "string option"
  entry_restrictions :: "string list option"
  entry_naturalAlternatives :: "string list option"
  entry_researchLinks :: "string list option"

definition ingredientDatabase :: "(string \<times> curated_entry) list" where
  \<comment> \<open>the object literal, as its own properties in declaration order (\<open>Object.entries\<close>)\<close>
  "ingredientDatabase = [
    (''paraben'', \<lparr> baseScore = 8, category = ''Preservative'',
       concerns = [''Endocrine disruption'', ''Reproductive toxicity'',
         ''Potential carcinogenic effects'', ''Skin sensitization''],
       entry_benefits = [''Effective preservation'', ''Extends product shelf life''],
       entry_scientificName = None,
       entry_restrictions = Some [''Restricted in EU'', ''Limited use in Japan''],
       entry_naturalAlternatives = Some [''Grapefruit seed extract'', ''Rosemary extract'', ''Neem oil''],
       entry_researchLinks = Some [''https://pubmed.ncbi.nlm.nih.gov/parabens-safety'',
         ''https://www.sciencedirect.com/topics/parabens-toxicology''] \<rparr>),
    (''phenoxyethanol'', \<lparr> baseScore = 4, category = ''Preservative'',
       concerns = [''Potential skin irritation'', ''Allergic reactions in sensitive individuals''],
       entry_benefits = [''Broad spectrum preservation'', ''Stable in formulations''],
       entry_scientificName = None, entry_restrictions = None,
       entry_naturalAlternatives = Some [''Leuconostoc ferment filtrate'', ''Lactobacillus ferment''],
       entry_researchLinks = None \<rparr>),
    (''sodium benzoate'', \<lparr> baseScore = 3, category = ''Preservative'',
       concerns = [''Potential irritation at high concentrations''],
       entry_benefits = [''Natural origin option'', ''Effective against mold''],
       entry_scientificName = Some ''Sodium benzoate'', entry_restrictions = None,
       entry_naturalAlternatives = None, entry_researchLinks = None \<rparr>),
    (''sodium lauryl sulfate'', \<lparr> baseScore = 6, category = ''Surfactant'',
       concerns = [''Skin irritation'', ''Barrier disruption'', ''Environmental concerns'',
         ''Potential contamination with 1,4-dioxane''],
       entry_benefits = [''Effective cleansing'', ''Good foaming''],
       entry_scientificName = None, entry_restrictions = None,
       entry_naturalAlternatives = Some [''Decyl glucoside'', ''Coco glucoside''],
       entry_researchLinks = None \<rparr>),
    (''cocamidopropyl betaine'', \<lparr> baseScore = 3, category = ''Surfactant'',
       concerns = [''Mild skin sensitization''],
       entry_benefits = [''Gentle cleansing'', ''Reduces irritation from other surfactants''],
       entry_scientificName = None, entry_restrictions = None,
       entry_naturalAlternatives = None, entry_researchLinks = None \<rparr>),
    (''glycerin'', \<lparr> baseScore = 1, category = ''Emollient'',
       concerns = [],
       entry_benefits = [''Hydration'', ''Skin barrier support'', ''Natural moisture factor'',
         ''Improves product texture''],
       entry_scientificName = Some ''Glycerol'', entry_restrictions = None,
       entry_naturalAlternatives = None, entry_researchLinks = None \<rparr>),
    (''hyaluronic acid'', \<lparr> baseScore = 1, category = ''Humectant'',
       concerns = [],
       entry_benefits = [''Deep hydration'', ''Anti-aging properties'', ''Supports skin barrier'',
         ''Improves wound healing''],
       entry_scientificName = Some ''Sodium Hyaluronate'', entry_restrictions = None,
       entry_naturalAlternatives = None, entry_researchLinks = None \<rparr>),
    (''vitamin e'', \<lparr> baseScore = 1, category = ''Antioxidant'',
       concerns = [],
       entry_benefits = [''Antioxidant protection'', ''Skin conditioning'', ''Anti-inflammatory'',
         ''Helps preserve other ingredients''],
       entry_scientificName = Some ''Tocopherol'', entry_restrictions = None,
       entry_naturalAlternatives = None, entry_researchLinks = None \<rparr>),
    (''vitamin c'', \<lparr> baseScore = 1, category = ''Antioxidant'',
       concerns = [''Stability issues''],
       entry_benefits = [''Brightening'', ''Collagen support'', ''Photoprotection'', ''Anti-aging''],
       entry_scientificName = Some ''Ascorbic Acid'', entry_restrictions = None,
       entry_naturalAlternatives = None, entry_researchLinks = None \<rparr>),
    (''titanium dioxide'', \<lparr> baseScore = 3, category = ''UV Filter'',
       concerns = [''Potential inhalation risk (powder form)'', ''Nanoparticle concerns''],
       entry_benefits = [''Broad spectrum protection'', ''Stable sun protection'', ''Non-irritating''],
       entry_scientificName = Some ''TiO2'', entry_restrictions = None,
       entry_naturalAlternatives = None, entry_researchLinks = None \<rparr>),
    (''zinc oxide'', \<lparr> baseScore = 2, category = ''UV Filter'',
       concerns = [''White cast on skin''],
       entry_benefits = [''Natural sun protection'', ''Skin soothing'', ''Anti-inflammatory''],
       entry_scientificName = Some ''ZnO'', entry_restrictions = None,
       entry_naturalAlternatives = None, entry_researchLinks = None \<rparr>)
  ]"

definition inherited_keys :: "string list" where
  \<comment> \<open>the property names an object literal inherits from \<open>Object.prototype\<close> that a
      lower-cased string can equal; \<open>key in obj\<close> is true for them as well\<close>
  "inherited_keys = [''constructor'', ''__proto__'']"

datatype db_match =
    Entry curated_entry
  | Inherited  \<comment> \<open>\<open>Object\<close> or \<open>Object.prototype\<close>: a truthy value with none of an entry's fields\<close>

section \<open>String similarity\<close>

definition set_cell :: "nat \<Rightarrow> nat \<Rightarrow> nat \<Rightarrow> nat list list \<Rightarrow> nat list list" where
  \<comment> \<open>\<open>matrix[j][i] = v\<close>\<close>
  "set_cell j i v m = m[j := (m ! j)[i := v]]"

definition cell_value :: "string \<Rightarrow> string \<Rightarrow> nat list list \<Rightarrow> nat \<Rightarrow> nat \<Rightarrow> nat" where
  \<comment> \<open>the value the inner loop stores at \<open>matrix[j][i]\<close>\<close>
  "cell_value str1 str2 m j i =
     (let substitutionCost = (if str1 ! (i - 1) = str2 ! (j - 1) then 0 else 1) in
      min (min (m ! j ! (i - 1) + 1) (m ! (j - 1) ! i + 1)) (m ! (j - 1) ! (i - 1) + substitutionCost))"

definition editDistance :: "string \<Rightarrow> string \<Rightarrow> nat" where
  \<comment> \<open>The matrix has \<open>str2.length + 1\<close> rows of \<open>str1.length + 1\<close> cells, filled with
      \<open>null\<close>; every cell is written before it is read, so the filler is written 0 here.\<close>
  "editDistance str1 str2 =
     (let m0 = replicate (length str2 + 1) (replicate (length str1 + 1) 0);
          m1 = fold (\<lambda>i m. set_cell 0 i i m) [0 ..< length str1 + 1] m0;
          m2 = fold (\<lambda>j m. set_cell j 0 j m) [0 ..< length str2 + 1] m1;
          m3 = fold (\<lambda>j m. fold (\<lambda>i m. set_cell j i (cell_value str1 str2 m j i) m)
                                 [1 ..< length str1 + 1] m)
                    [1 ..< length str2 + 1] m2
      in m3 ! length str2 ! length str1)"

definition calculateStringSimilarity :: "string \<Rightarrow> string \<Rightarrow> rat" where
  "calculateStringSimilarity str1 str2 =
     (let longer = (if length str1 > length str2 then str1 else str2);
          shorter = (if length str1 > length str2 then str2 else str1)
      in if length longer = 0 then 1
         else of_int (int (length longer) - int (editDistance longer shorter))
                / of_nat (length longer))"

fun best_match :: "string \<Rightarrow> (string \<times> curated_entry) list \<Rightarrow> curated_entry option \<Rightarrow> rat
    \<Rightarrow> curated_entry option" where
  \<comment> \<open>the scan over \<open>Object.entries\<close>, with \<open>bestMatch\<close> and \<open>highestMatchScore\<close> as state\<close>
  "best_match normalizedInput [] bestMatch highestMatchScore = bestMatch"
| "best_match normalizedInput ((key, val) # rest) bestMatch highestMatchScore =
     (let similarity = calculateStringSimilarity normalizedInput key in
      if similarity > highestMatchScore \<and> similarity > 8 / 10
      then best_match normalizedInput rest (Some val) similarity
      else best_match normalizedInput rest bestMatch highestMatchScore)"

definition findIngredientInDatabase :: "string \<Rightarrow> db_match option" where
  "findIngredientInDatabase ingredient =
     (let normalizedInput = toLowerCase ingredient in
      case map_of ingredientDatabase normalizedInput of
        Some e \<Rightarrow> Some (Entry e)
      | None \<Rightarrow>
          if List.member inherited_keys normalizedInput then Some Inherited
          else map_option Entry (best_match normalizedInput ingredientDatabase None 0))"

section \<open>The heuristic classifier\<close>

datatype pattern =
    Sub string            \<comment> \<open>\<open>/lit/i\<close>: the literal occurs somewhere, ignoring case\<close>
  | SubDigits string      \<comment> \<open>\<open>/lit\d+/i\<close>: the literal occurs, followed by a digit\<close>
  | Whole "string list"   \<comment> \<open>\<open>/^(a|b|...)$/i\<close>: the whole string is one of the alternatives\<close>

fun lit_then_digit :: "string \<Rightarrow> string \<Rightarrow> bool" where
  "lit_then_digit l [] = False"
| "lit_then_digit l (c # cs) =
     ((take (length l) (c # cs) = l \<and>
        (case drop (length l) (c # cs) of [] \<Rightarrow> False | d # _ \<Rightarrow> is_digit d))
      \<or> lit_then_digit l cs)"

fun rx_test :: "pattern \<Rightarrow> string \<Rightarrow> bool" where
  \<comment> \<open>\<open>pattern.test(s)\<close>; the literals are in lower case\<close>
  "rx_test (Sub l) s = js_includes (toLowerCase s) l"
| "rx_test (SubDigits l) s = lit_then_digit l (toLowerCase s)"
| "rx_test (Whole alts) s = List.member alts (toLowerCase s)"

definition high_patterns :: "pattern list" where
  "high_patterns = [Sub ''paraben'', Sub ''phthalate'', Sub ''formaldehyde'', Sub ''triclosan'',
     Sub ''bha'', Sub ''bht'', Sub ''toluene'', Sub ''petroleum'', Sub ''lead'', Sub ''mercury'',
     Sub ''hydroquinone'', Sub ''oxybenzone'', Sub ''coal tar'', Sub ''ethanolamines'',
     Sub ''dioxane'', Sub ''nitrosamine'', Sub ''polyethylene'']"

definition moderate_patterns :: "pattern list" where
  "moderate_patterns = [SubDigits ''peg-'', Sub ''phenoxyethanol'', Sub ''sodium lauryl sulfate'',
     Sub ''propylene'', Sub ''butylene'', Sub ''synthetic'', Sub ''fragrance'',
     Sub ''dmdm'', Sub ''diazolidinyl'', Sub ''quaternium'', Sub ''methylisothiazolinone'']"

definition low_patterns :: "pattern list" where
  "low_patterns = [Sub ''water'', Sub ''aqua'', Sub ''aloe'', Sub ''glycerin'', Sub ''vitamin'',
     Sub ''panthenol'', Sub ''allantoin'', Sub ''zinc'', Sub ''titanium dioxide'',
     Sub ''hyaluronic'', Sub ''ceramide'', Sub ''peptide'', Sub ''amino acid'']"

definition veryLow_patterns :: "pattern list" where
  "veryLow_patterns = [Whole [''water''], Whole [''aloe vera''], Whole [''glycerin''],
     Whole [''vitamin a'', ''vitamin b'', ''vitamin c'', ''vitamin d'', ''vitamin e''],
     Whole [''zinc oxide''], Whole [''green tea''], Whole [''chamomile''], Whole [''calendula''],
     Whole [''jojoba oil''], Whole [''shea butter'']]"

definition riskPatterns :: "(string \<times> int \<times> pattern list) list" where
  \<comment> \<open>\<open>Object.entries(riskPatterns)\<close>: risk name, score, patterns\<close>
  "riskPatterns = [(''high'', 8, high_patterns), (''moderate'', 5, moderate_patterns),
     (''low'', 2, low_patterns), (''veryLow'', 1, veryLow_patterns)]"

definition tier_matches :: "pattern list \<Rightarrow> string \<Rightarrow> bool" where
  \<comment> \<open>\<open>patterns.some(pattern => pattern.test(ingredient))\<close>\<close>
  "tier_matches patterns ingredient = list_ex (\<lambda>p. rx_test p ingredient) patterns"

fun score_loop :: "(string \<times> int \<times> pattern list) list \<Rightarrow> string \<Rightarrow> int" where
  "score_loop [] ingredient = 5"
| "score_loop ((risk, score, patterns) # rest) ingredient =
     (if tier_matches patterns ingredient then score else score_loop rest ingredient)"

definition calculateDefaultScore :: "string \<Rightarrow> int" where
  "calculateDefaultScore ingredient = score_loop riskPatterns ingredient"

definition getSafetyLevel :: "score_val \<Rightarrow> string" where
  "getSafetyLevel score =
     (if js_le score 2 then ''Low Concern''
      else if js_le score 6 then ''Moderate Concern''
      else ''High Concern'')"

definition getDefaultConcern :: "score_val \<Rightarrow> string" where
  "getDefaultConcern score =
     (if js_le score 2 then ''Generally recognized as safe with extensive safety data''
      else if js_le score 6 then ''Moderate safety concerns, may require more research''
      else ''High safety concerns, potential risks identified'')"

fun keyword_loop :: "(string \<times> string list) list \<Rightarrow> string \<Rightarrow> string \<Rightarrow> string" where
  \<comment> \<open>the loop both keyword classifiers run over their table; the first argument after the
      table is the fallback\<close>
  "keyword_loop [] fallback lowerIngredient = fallback"
| "keyword_loop ((label, keywords) # rest) fallback lowerIngredient =
     (if list_ex (\<lambda>keyword. js_includes lowerIngredient keyword) keywords then label
      else keyword_loop rest fallback lowerIngredient)"

definition functions_table :: "(string \<times> string list) list" where
  "functions_table = [
    (''Preservative'', [''paraben'', ''phenoxyethanol'', ''benzoate'', ''sorbate'', ''formaldehyde'',
      ''methylisothiazolinone'', ''benzyl alcohol'', ''potassium sorbate'',
      ''sodium benzoate'', ''ethylhexylglycerin'']),
    (''Surfactant'', [''lauryl'', ''laureth'', ''sodium'', ''cocamide'', ''sulfate'', ''betaine'',
      ''decyl glucoside'', ''coco-glucoside'', ''polysorbate'', ''taurate'',
      ''isethionate'', ''amphoacetate'']),
    (''Emollient'', [''oil'', ''butter'', ''glycerin'', ''lanolin'', ''dimethicone'', ''squalane'',
      ''ceramide'', ''fatty acid'', ''triglyceride'', ''caprylic'', ''stearic'',
      ''cetyl'', ''cetearyl'', ''isopropyl myristate'']),
    (''Fragrance'', [''fragrance'', ''parfum'', ''aroma'', ''essential oil'', ''limonene'',
      ''linalool'', ''citral'', ''geraniol'', ''citronellol'', ''eugenol'']),
    (''UV Filter'', [''benzophenone'', ''avobenzone'', ''titanium dioxide'', ''zinc oxide'',
      ''octinoxate'', ''oxybenzone'', ''octocrylene'', ''homosalate'',
      ''ethylhexyl methoxycinnamate'', ''tinosorb'']),
    (''Antioxidant'', [''tocopherol'', ''vitamin'', ''retinol'', ''ascorbic'', ''niacinamide'',
      ''flavonoid'', ''polyphenol'', ''resveratrol'', ''ferulic'', ''ubiquinone'']),
    (''Humectant'', [''glycerin'', ''hyaluronic'', ''urea'', ''propylene glycol'', ''butylene glycol'',
      ''sodium pca'', ''sorbitol'', ''panthenol'', ''sodium lactate'', ''aloe'']),
    (''Emulsifier'', [''cetyl'', ''stearic'', ''glyceryl'', ''polysorbate'', ''cetearyl'',
      ''peg'', ''sorbitan'', ''carbomer'', ''hydroxypropyl'', ''lecithin'']),
    (''pH Adjuster'', [''citric acid'', ''lactic acid'', ''sodium hydroxide'', ''potassium hydroxide'',
      ''triethanolamine'', ''aminomethyl propanol'']),
    (''Chelating Agent'', [''edta'', ''tetrasodium'', ''disodium'', ''trisodium'', ''etidronic acid''])
  ]"

definition getIngredientFunction :: "string \<Rightarrow> string" where
  "getIngredientFunction ingredient =
     keyword_loop functions_table ''Other/Unknown'' (toLowerCase ingredient)"

definition uses_table :: "(string \<times> string list) list" where
  "uses_table = [
    (''Moisturizing agent'', [''glycerin'', ''oil'', ''butter'', ''hyaluronic'', ''dimethicone'',
      ''squalane'', ''ceramide'', ''fatty acid'', ''jojoba'', ''aloe'',
      ''sodium pca'', ''urea'', ''panthenol'']),
    (''Cleansing agent'', [''lauryl'', ''laureth'', ''cocamide'', ''sulfate'', ''glucoside'',
      ''betaine'', ''sodium cocoyl'', ''decyl'', ''isethionate'', ''taurate'']),
    (''Preservative system'', [''paraben'', ''phenoxyethanol'', ''benzoate'', ''formaldehyde'',
      ''methylisothiazolinone'', ''potassium sorbate'', ''benzyl alcohol'',
      ''sodium benzoate'', ''ethylhexylglycerin'']),
    (''Fragrance component'', [''fragrance'', ''parfum'', ''aroma'', ''essential oil'', ''limonene'',
      ''linalool'', ''citral'', ''geraniol'', ''citronellol'', ''eugenol'']),
    (''Sun protection'', [''benzophenone'', ''avobenzone'', ''titanium'', ''zinc oxide'',
      ''octinoxate'', ''oxybenzone'', ''octocrylene'', ''homosalate'',
      ''tinosorb'', ''uvinul'']),
    (''Antioxidant protection'', [''tocopherol'', ''vitamin'', ''retinol'', ''ascorbic'', ''niacinamide'',
      ''flavonoid'', ''polyphenol'', ''resveratrol'', ''ferulic'', ''ubiquinone'']),
    (''Thickening agent'', [''carbomer'', ''xanthan'', ''cellulose'', ''guar'', ''carrageenan'',
      ''acacia'', ''agar'', ''alginate'', ''hydroxypropyl'', ''hydroxyethylcellulose'']),
    (''Skin conditioning'', [''aloe'', ''panthenol'', ''allantoin'', ''chamomile'', ''calendula'',
      ''green tea'', ''collagen'', ''peptide'', ''ceramide'', ''beta glucan'']),
    (''pH balancing'', [''citric acid'', ''lactic acid'', ''sodium hydroxide'', ''potassium hydroxide'',
      ''triethanolamine'', ''aminomethyl propanol'']),
    (''Stabilizing agent'', [''edta'', ''tetrasodium'', ''disodium'', ''trisodium'', ''etidronic acid'',
      ''sodium phytate'', ''sodium gluconate''])
  ]"

definition getCommonUse :: "string \<Rightarrow> string" where
  "getCommonUse ingredient =
     keyword_loop uses_table ''Various applications'' (toLowerCase ingredient)"

section \<open>Score text parsing\<close>

definition first_digits :: "string \<Rightarrow> string" where
  \<comment> \<open>\<open>scoreText.match(/\d+/)[0]\<close>: the first maximal run of digits (empty when there is none)\<close>
  "first_digits s = takeWhile is_digit (dropWhile (\<lambda>c. \<not> is_digit c) s)"

definition parseInt :: "string \<Rightarrow> int" where
  \<comment> \<open>\<open>parseInt\<close> on a non-empty string of decimal digits\<close>
  "parseInt ds = foldl (\<lambda>acc c. acc * 10 + (int (of_char c) - 48)) 0 ds"

definition kw_at :: "string \<Rightarrow> string \<Rightarrow> bool" where
  \<comment> \<open>the keyword stands at the head of \<open>s\<close>, ignoring case, and a word boundary follows it\<close>
  "kw_at k s = (toLowerCase (take (length k) s) = k \<and>
     (case drop (length k) s of [] \<Rightarrow> True | c # _ \<Rightarrow> \<not> is_word_char c))"

fun word_scan :: "string list \<Rightarrow> bool \<Rightarrow> string \<Rightarrow> bool" where
  \<comment> \<open>the flag says whether the character before the current position is a word character\<close>
  "word_scan ks prev [] = False"
| "word_scan ks prev (c # cs) =
     ((\<not> prev \<and> list_ex (\<lambda>k. kw_at k (c # cs)) ks) \<or> word_scan ks (is_word_char c) cs)"

definition rx_word_test :: "string list \<Rightarrow> string \<Rightarrow> bool" where
  \<comment> \<open>\<open>/\b(k1|k2|...)\b/i.test(s)\<close> for keywords made of lower-case letters\<close>
  "rx_word_test ks s = word_scan ks False s"

definition riskLevels_low :: "string list" where
  "riskLevels_low = [''low'', ''safe'', ''minimal'', ''good'']"

definition riskLevels_moderate :: "string list" where
  "riskLevels_moderate = [''moderate'', ''medium'', ''average'']"

definition riskLevels_high :: "string list" where
  "riskLevels_high = [''high'', ''unsafe'', ''dangerous'', ''poor'']"

definition parseScore :: "string option \<Rightarrow> int option" where
  \<comment> \<open>the argument is \<open>None\<close> for \<open>undefined\<close>; the result is \<open>None\<close> for \<open>null\<close>\<close>
  "parseScore scoreText =
     (case scoreText of
        None \<Rightarrow> None
      | Some t \<Rightarrow>
          if t = [] then None
          else if list_ex is_digit t then Some (max 1 (min 10 (parseInt (first_digits t))))
          else if rx_word_test riskLevels_low t then Some 2
          else if rx_word_test riskLevels_moderate t then Some 5
          else if rx_word_test riskLevels_high t then Some 8
          else None)"

definition score_of :: "int option \<Rightarrow> score_val" where
  \<comment> \<open>the result of \<open>parseScore\<close> as a JavaScript value\<close>
  "score_of r = (case r of None \<Rightarrow> Null | Some n \<Rightarrow> Num n)"

section \<open>The remote lookup adapter\<close>

record product =
  \<comment> \<open>one scraped entry of the structured response; an absent field is \<open>None\<close>\<close>
  product_score :: "string option"
  product_concerns :: "string list option"
  product_category :: "string option"

record html_listing =
  \<comment> \<open>what the selectors read from the first \<open>.product-listing\<close> node of the markup\<close>
  score_text :: string
  concern_items :: "string list"
  function_text :: string
  use_text :: string

datatype fetch_outcome =
    FetchRejected                 \<comment> \<open>\<open>fetch\<close> rejects: network failure\<close>
  | NotOk                         \<comment> \<open>\<open>response.ok\<close> is false\<close>
  | JsonRejected                  \<comment> \<open>\<open>response.json()\<close> rejects: malformed body\<close>
  | Structured "product list"     \<comment> \<open>a body whose \<open>data\<close> is an array\<close>
  | Html "html_listing option"    \<comment> \<open>a body with \<open>html\<close> and no \<open>data\<close>; the first listing node, if any\<close>
  | HtmlRaises                    \<comment> \<open>a body with \<open>html\<close> whose parsing raises\<close>
  | NoPayload                     \<comment> \<open>a body with neither\<close>

record partial_ingredient =
  p_ewgScore :: score_val
  p_safetyLevel :: string
  p_reasonForConcern :: "string option"
  p_func :: "string option"
  p_commonUse :: string
  p_scientificName :: "string option"
  p_benefits :: "string option"
  p_restrictions :: "string option"
  p_naturalAlternatives :: "string option"
  p_researchLinks :: "string option"

definition match_baseScore :: "db_match \<Rightarrow> score_val" where
  \<comment> \<open>\<open>dbMatch.baseScore\<close>\<close>
  "match_baseScore m = (case m of Entry e \<Rightarrow> Num (baseScore e) | Inherited \<Rightarrow> Undefined)"

definition match_category :: "db_match \<Rightarrow> string option" where
  \<comment> \<open>\<open>dbMatch.category\<close>\<close>
  "match_category m = (case m of Entry e \<Rightarrow> Some (category e) | Inherited \<Rightarrow> None)"

definition match_concerns_join :: "db_match \<Rightarrow> js_error + string" where
  \<comment> \<open>\<open>dbMatch.concerns.join(', ')\<close>: reading \<open>join\<close> of \<open>undefined\<close> raises\<close>
  "match_concerns_join m =
     (case m of Entry e \<Rightarrow> Inr (js_join '', '' (concerns e)) | Inherited \<Rightarrow> Inl TypeError)"

definition match_scientificName :: "db_match option \<Rightarrow> string option" where
  \<comment> \<open>\<open>dbMatch?.scientificName\<close>\<close>
  "match_scientificName d =
     (case d of Some (Entry e) \<Rightarrow> entry_scientificName e | _ \<Rightarrow> None)"

definition match_benefits :: "db_match option \<Rightarrow> string option" where
  \<comment> \<open>\<open>dbMatch?.benefits?.join(', ')\<close>\<close>
  "match_benefits d =
     (case d of Some (Entry e) \<Rightarrow> Some (js_join '', '' (entry_benefits e)) | _ \<Rightarrow> None)"

definition match_restrictions :: "db_match option \<Rightarrow> string option" where
  "match_restrictions d =
     (case d of Some (Entry e) \<Rightarrow> map_option (js_join '', '') (entry_restrictions e) | _ \<Rightarrow> None)"

definition match_naturalAlternatives :: "db_match option \<Rightarrow> string option" where
  "match_naturalAlternatives d =
     (case d of Some (Entry e) \<Rightarrow> map_option (js_join '', '') (entry_naturalAlternatives e)
      | _ \<Rightarrow> None)"

definition match_researchLinks :: "db_match option \<Rightarrow> string option" where
  \<comment> \<open>joined with a line feed\<close>
  "match_researchLinks d =
     (case d of Some (Entry e) \<Rightarrow> map_option (js_join [CHR 0x0A]) (entry_researchLinks e)
      | _ \<Rightarrow> None)"

definition structured_record :: "product \<Rightarrow> string \<Rightarrow> partial_ingredient" where
  \<comment> \<open>the object the structured branch returns for \<open>productData\<close>\<close>
  "structured_record productData ingredient =
     \<lparr> p_ewgScore = score_of (parseScore (product_score productData)),
       p_safetyLevel = getSafetyLevel (score_of (parseScore (product_score productData))),
       p_reasonForConcern = map_option (js_join '', '') (product_concerns productData),
       p_func = product_category productData,
       p_commonUse = getCommonUse ingredient,
       p_scientificName = None, p_benefits = None, p_restrictions = None,
       p_naturalAlternatives = None, p_researchLinks = None \<rparr>"

definition html_record :: "html_listing \<Rightarrow> string \<Rightarrow> js_error + partial_ingredient" where
  \<comment> \<open>the HTML fallback branch, from \<open>scoreText\<close> on\<close>
  "html_record firstResult ingredient =
     (let scoreText = trim (score_text firstResult);
          score = score_of (parseScore (Some scoreText));
          concerns = js_join '', '' (map trim (concern_items firstResult));
          functionText = trim (function_text firstResult);
          useText = trim (use_text firstResult);
          dbMatch = findIngredientInDatabase ingredient;
          finalScore = (if truthy_score score then score
                        else case dbMatch of Some m \<Rightarrow> match_baseScore m
                             | None \<Rightarrow> Num (calculateDefaultScore ingredient))
      in case (if concerns \<noteq> [] then Inr concerns
               else case dbMatch of Some m \<Rightarrow> match_concerns_join m
                    | None \<Rightarrow> Inr (getDefaultConcern finalScore)) of
           Inl e \<Rightarrow> Inl e
         | Inr reason \<Rightarrow> Inr
             \<lparr> p_ewgScore = finalScore,
               p_safetyLevel = getSafetyLevel finalScore,
               p_reasonForConcern = Some reason,
               p_func = (if functionText \<noteq> [] then Some functionText
                         else case dbMatch of Some m \<Rightarrow> match_category m
                              | None \<Rightarrow> Some (getIngredientFunction ingredient)),
               p_commonUse = (if useText \<noteq> [] then useText else getCommonUse ingredient),
               p_scientificName = match_scientificName dbMatch,
               p_benefits = match_benefits dbMatch,
               p_restrictions = match_restrictions dbMatch,
               p_naturalAlternatives = match_naturalAlternatives dbMatch,
               p_researchLinks = match_researchLinks dbMatch \<rparr>)"

definition fetchEWGData_try :: "fetch_outcome \<Rightarrow> string \<Rightarrow> js_error + partial_ingredient option" where
  \<comment> \<open>the body of the \<open>try\<close> block: \<open>Inl\<close> is an exception raised inside it\<close>
  "fetchEWGData_try response ingredient =
     (case response of
        FetchRejected \<Rightarrow> Inl NetworkError
      | NotOk \<Rightarrow> Inr None
      | JsonRejected \<Rightarrow> Inl SyntaxError
      | Structured products \<Rightarrow>
          (case products of
             [] \<Rightarrow> Inr None
           | productData # _ \<Rightarrow> Inr (Some (structured_record productData ingredient)))
      | Html listing \<Rightarrow>
          (case listing of
             None \<Rightarrow> Inr None
           | Some firstResult \<Rightarrow>
               (case html_record firstResult ingredient of
                  Inl e \<Rightarrow> Inl e
                | Inr r \<Rightarrow> Inr (Some r)))
      | HtmlRaises \<Rightarrow> Inl ParseError
      | NoPayload \<Rightarrow> Inr None)"

definition fetchEWGData :: "fetch_outcome \<Rightarrow> string \<Rightarrow> js_error + partial_ingredient option" where
  \<comment> \<open>the \<open>catch\<close> clause logs the error and returns \<open>null\<close>\<close>
  "fetchEWGData response ingredient =
     (case fetchEWGData_try response ingredient of
        Inl error \<Rightarrow> Inr None
      | Inr r \<Rightarrow> Inr r)"

section \<open>The resolution pipeline\<close>

record Ingredient =
  \<comment> \<open>the object pushed per token; \<open>func\<close> is the property \<open>function\<close>. A property whose
      expression can evaluate to \<open>undefined\<close> carries an option or a \<open>score_val\<close>.\<close>
  name :: string
  func :: "string option"
  ewgScore :: score_val
  safetyLevel :: string
  reasonForConcern :: string
  commonUse :: string
  scientificName :: "string option"
  benefits :: "string option"
  restrictions :: "string option"
  naturalAlternatives :: "string option"
  researchLinks :: "string option"

definition ingredientsArray :: "string \<Rightarrow> string list" where
  "ingredientsArray ingredientList =
     filter (\<lambda>item. item \<noteq> [] \<and> length item > 1)
       (map trim (split_seps [] (toLowerCase ingredientList)))"

definition titleCase :: "string \<Rightarrow> string" where
  \<comment> \<open>\<open>name.split(' ').map(word => word.charAt(0).toUpperCase() + word.slice(1)).join(' ')\<close>\<close>
  "titleCase nm =
     js_join '' '' (map (\<lambda>word. toUpperCase (take 1 word) @ drop 1 word) (split_char CHR '' '' [] nm))"

definition merge_record :: "partial_ingredient option \<Rightarrow> db_match option \<Rightarrow> string
    \<Rightarrow> js_error + Ingredient" where
  \<comment> \<open>the object literal of the loop body, its properties evaluated in order; only
      \<open>reasonForConcern\<close> can raise\<close>
  "merge_record ewgData dbMatch nm =
     (let remoteFunction = (case ewgData of None \<Rightarrow> None | Some p \<Rightarrow> p_func p);
          remoteScore = (case ewgData of None \<Rightarrow> Undefined | Some p \<Rightarrow> p_ewgScore p);
          remoteLevel = (case ewgData of None \<Rightarrow> None | Some p \<Rightarrow> Some (p_safetyLevel p));
          remoteReason = (case ewgData of None \<Rightarrow> None | Some p \<Rightarrow> p_reasonForConcern p);
          remoteUse = (case ewgData of None \<Rightarrow> None | Some p \<Rightarrow> Some (p_commonUse p))
      in case (if truthy_str remoteReason then Inr (the remoteReason)
               else case dbMatch of Some m \<Rightarrow> match_concerns_join m
                    | None \<Rightarrow> Inr (getDefaultConcern (Num (calculateDefaultScore nm)))) of
           Inl e \<Rightarrow> Inl e
         | Inr reason \<Rightarrow> Inr
             \<lparr> name = titleCase nm,
               func = (if truthy_str remoteFunction then remoteFunction
                       else case dbMatch of Some m \<Rightarrow> match_category m
                            | None \<Rightarrow> Some (getIngredientFunction nm)),
               ewgScore = (if truthy_score remoteScore then remoteScore
                           else case dbMatch of Some m \<Rightarrow> match_baseScore m
                                | None \<Rightarrow> Num (calculateDefaultScore nm)),
               safetyLevel = (if truthy_str remoteLevel then the remoteLevel
                              else case dbMatch of Some m \<Rightarrow> getSafetyLevel (match_baseScore m)
                                   | None \<Rightarrow> getSafetyLevel (Num (calculateDefaultScore nm))),
               reasonForConcern = reason,
               commonUse = (if truthy_str remoteUse then the remoteUse else getCommonUse nm),
               scientificName = match_scientificName dbMatch,
               benefits = match_benefits dbMatch,
               restrictions = match_restrictions dbMatch,
               naturalAlternatives = match_naturalAlternatives dbMatch,
               researchLinks = match_researchLinks dbMatch \<rparr>)"

definition analyzeIngredient :: "fetch_outcome \<Rightarrow> string \<Rightarrow> js_error + Ingredient" where
  \<comment> \<open>one iteration of the loop: the remote lookup, the database lookup, the merge\<close>
  "analyzeIngredient response nm =
     (case fetchEWGData response nm of
        Inl e \<Rightarrow> Inl e
      | Inr ewgData \<Rightarrow> merge_record ewgData (findIngredientInDatabase nm) nm)"

fun analyze_loop :: "(nat \<Rightarrow> fetch_outcome) \<Rightarrow> nat \<Rightarrow> string list \<Rightarrow> Ingredient list
    \<Rightarrow> js_error + Ingredient list" where
  \<comment> \<open>the \<open>for\<close> loop with \<open>analyzedIngredients\<close> as state; \<open>remote k\<close> is what the service
      answers to the \<open>k\<close>-th lookup; an exception ends the loop\<close>
  "analyze_loop remote k [] analyzedIngredients = Inr analyzedIngredients"
| "analyze_loop remote k (nm # rest) analyzedIngredients =
     (case analyzeIngredient (remote k) nm of
        Inl e \<Rightarrow> Inl e
      | Inr r \<Rightarrow> analyze_loop remote (Suc k) rest (analyzedIngredients @ [r]))"

definition analyzeIngredients :: "(nat \<Rightarrow> fetch_outcome) \<Rightarrow> string \<Rightarrow> js_error + Ingredient list" where
  "analyzeIngredients remote ingredientList =
     analyze_loop remote 0 (ingredientsArray ingredientList) []"

section \<open>Reference notions of the specification\<close>

text \<open>
  The definitions of this section are not translations of code: they state, in the words of
  the specification, what the code is compared with.
\<close>

definition band :: "int \<Rightarrow> string" where
  \<comment> \<open>the band function of a score\<close>
  "band s = (if s \<le> 2 then ''Low Concern'' else if s \<le> 6 then ''Moderate Concern''
             else ''High Concern'')"

fun levenshtein :: "'a list \<Rightarrow> 'a list \<Rightarrow> nat" where
  \<comment> \<open>the classic edit distance: insertion, deletion and substitution cost one each\<close>
  "levenshtein [] ys = length ys"
| "levenshtein xs [] = length xs"
| "levenshtein (x # xs) (y # ys) =
     min (min (levenshtein xs (y # ys) + 1) (levenshtein (x # xs) ys + 1))
         (levenshtein xs ys + (if x = y then 0 else 1))"

inductive edits :: "nat \<Rightarrow> 'a list \<Rightarrow> 'a list \<Rightarrow> bool" where
  \<comment> \<open>\<open>edits n xs ys\<close>: some sequence of \<open>n\<close> unit-cost edits turns \<open>xs\<close> into \<open>ys\<close>\<close>
  Done: "edits 0 [] []"
| Keep: "edits n xs ys \<Longrightarrow> edits n (x # xs) (x # ys)"
| Subst: "edits n xs ys \<Longrightarrow> edits (Suc n) (x # xs) (y # ys)"
| Delete: "edits n xs ys \<Longrightarrow> edits (Suc n) (x # xs) ys"
| Insert: "edits n xs ys \<Longrightarrow> edits (Suc n) xs (y # ys)"

fun dist_prefix :: "'a list \<Rightarrow> 'a list \<Rightarrow> nat \<Rightarrow> nat \<Rightarrow> nat" where
  \<comment> \<open>the distance between the first \<open>i\<close> items of \<open>a\<close> and the first \<open>j\<close> items of \<open>b\<close>,
      by the recurrence the matrix is filled with\<close>
  "dist_prefix a b 0 j = j"
| "dist_prefix a b (Suc i) 0 = Suc i"
| "dist_prefix a b (Suc i) (Suc j) =
     min (min (dist_prefix a b i (Suc j) + 1) (dist_prefix a b (Suc i) j + 1))
         (dist_prefix a b i j + (if a ! i = b ! j then 0 else 1))"

definition dims :: "nat \<Rightarrow> nat \<Rightarrow> nat list list \<Rightarrow> bool" where
  \<comment> \<open>a matrix of \<open>n2 + 1\<close> rows of \<open>n1 + 1\<close> cells\<close>
  "dims n1 n2 m = (length m = Suc n2 \<and> (\<forall>j \<le> n2. length (m ! j) = Suc n1))"

definition filled :: "string \<Rightarrow> string \<Rightarrow> nat \<Rightarrow> nat \<Rightarrow> nat list list \<Rightarrow> bool" where
  \<comment> \<open>the state of the matrix when the nested loops stand at row \<open>j\<close>, column \<open>i\<close>:
      row 0, column 0, the rows before \<open>j\<close> and the cells of row \<open>j\<close> before \<open>i\<close> hold
      their distances\<close>
  "filled str1 str2 j i m =
     (dims (length str1) (length str2) m \<and>
      (\<forall>i' \<le> length str1. m ! 0 ! i' = i') \<and>
      (\<forall>j' \<le> length str2. m ! j' ! 0 = j') \<and>
      (\<forall>j' < j. \<forall>i' \<le> length str1. m ! j' ! i' = dist_prefix str1 str2 i' j') \<and>
      (j \<le> length str2 \<longrightarrow> (\<forall>i' < i. m ! j ! i' = dist_prefix str1 str2 i' j)))"

definition whole_word :: "string list \<Rightarrow> string \<Rightarrow> bool" where
  \<comment> \<open>one of the keywords occurs in the text, ignoring case, as a whole word: neither the
      character before the occurrence nor the one after it is a word character\<close>
  "whole_word ks s =
     (\<exists>pre mid post. s = pre @ mid @ post \<and> toLowerCase mid \<in> set ks \<and>
        (pre = [] \<or> \<not> is_word_char (last pre)) \<and>
        (post = [] \<or> \<not> is_word_char (hd post)))"

definition occurs_anywhere :: "string list \<Rightarrow> string \<Rightarrow> bool" where
  \<comment> \<open>the regex \<open>/k1|k2|.../i\<close> with no word boundaries: a keyword occurs anywhere in the text\<close>
  "occurs_anywhere ks s = list_ex (\<lambda>k. js_includes (toLowerCase s) k) ks"

definition decimal :: "string \<Rightarrow> int" where
  \<comment> \<open>the number a string of decimal digits denotes\<close>
  "decimal ds = (\<Sum>i < length ds. (int (of_char (ds ! i)) - 48) * 10 ^ (length ds - 1 - i))"

definition tokens_spec :: "string \<Rightarrow> string list" where
  \<comment> \<open>split, trim each token, drop empty and single-character tokens, lowercase\<close>
  "tokens_spec s =
     map toLowerCase (filter (\<lambda>t. t \<noteq> [] \<and> length t \<noteq> 1) (map trim (split_seps [] s)))"

definition occurs_ci :: "string \<Rightarrow> string \<Rightarrow> bool" where
  \<comment> \<open>the regex \<open>/lit/i\<close> matches: the literal, given in lower case, occurs somewhere in
      the text, ignoring case\<close>
  "occurs_ci lit s = (\<exists>pre mid post. s = pre @ mid @ post \<and> toLowerCase mid = lit)"

definition occurs_ci_digit :: "string \<Rightarrow> string \<Rightarrow> bool" where
  \<comment> \<open>the regex \<open>/lit\d+/i\<close> matches: an occurrence of the literal is followed by a digit\<close>
  "occurs_ci_digit lit s =
     (\<exists>pre mid d post. s = pre @ mid @ d # post \<and> toLowerCase mid = lit \<and> is_digit d)"

definition equals_ci :: "string \<Rightarrow> string \<Rightarrow> bool" where
  \<comment> \<open>the regex \<open>/^lit$/i\<close> matches: the whole text is the literal, ignoring case\<close>
  "equals_ci lit s = (toLowerCase s = lit)"

definition pick :: "'a option \<Rightarrow> 'a option \<Rightarrow> 'a \<Rightarrow> 'a" where
  \<comment> \<open>the field merge priority: the remote value if supplied, else the curated value if
      there is a curated entry, else the heuristic default\<close>
  "pick remote curated heuristic =
     (case remote of Some v \<Rightarrow> v
      | None \<Rightarrow> (case curated of Some v \<Rightarrow> v | None \<Rightarrow> heuristic))"

definition supplied_str :: "string option \<Rightarrow> string option" where
  \<comment> \<open>a remote string counts as supplied when it is defined and not empty\<close>
  "supplied_str v = (if truthy_str v then v else None)"

definition supplied_score :: "score_val \<Rightarrow> int option" where
  \<comment> \<open>a remote score counts as supplied when it is a number other than 0\<close>
  "supplied_score v = (case v of Num n \<Rightarrow> if n = 0 then None else Some n | _ \<Rightarrow> None)"

definition entry_of :: "db_match option \<Rightarrow> curated_entry option" where
  \<comment> \<open>the curated entry of a lookup result, if it is one\<close>
  "entry_of d = (case d of Some (Entry e) \<Rightarrow> Some e | _ \<Rightarrow> None)"

section \<open>The edit-distance matrix\<close>

lemma fold_upt_invariant:
  assumes "a \<le> b" and "P a s"
    and step: "\<And>k t. a \<le> k \<Longrightarrow> k < b \<Longrightarrow> P k t \<Longrightarrow> P (Suc k) (f k t)"
  shows "P b (fold f [a ..< b] s)"
proof -
  have "c \<le> b \<Longrightarrow> a \<le> c \<Longrightarrow> P c (fold f [a ..< c] s)" for c
  proof (induction c)
    case 0
    then show ?case using assms(2) by simp
  next
    case (Suc c)
    show ?case
    proof (cases "a = Suc c")
      case True
      then show ?thesis using assms(2) by simp
    next
      case False
      with Suc.prems have ac: "a \<le> c" and cb: "c < b" by simp_all
      then have "P c (fold f [a ..< c] s)" using Suc.IH by simp
      then have "P (Suc c) (f c (fold f [a ..< c] s))" using step ac cb by blast
      then show ?thesis using ac by simp
    qed
  qed
  then show ?thesis using assms(1) by blast
qed

lemma set_cell_dims:
  "dims n1 n2 m \<Longrightarrow> dims n1 n2 (set_cell j i v m)"
  by (cases "j < length m") (auto simp: dims_def set_cell_def nth_list_update)

lemma set_cell_nth:
  "dims n1 n2 m \<Longrightarrow> j \<le> n2 \<Longrightarrow> i \<le> n1 \<Longrightarrow> j' \<le> n2 \<Longrightarrow>
   set_cell j i v m ! j' ! i' = (if j' = j \<and> i' = i then v else m ! j' ! i')"
  by (auto simp: dims_def set_cell_def nth_list_update)

lemma dims_replicate: "dims n1 n2 (replicate (n2 + 1) (replicate (n1 + 1) 0))"
proof -
  have "replicate (Suc n2) (replicate (Suc n1) (0::nat)) ! j = replicate (Suc n1) 0" if "j \<le> n2" for j
    using that by (intro nth_replicate) simp
  then show ?thesis
    unfolding dims_def by (simp del: replicate.simps)
qed

lemma dist_prefix_zero_right [simp]: "dist_prefix a b i 0 = i"
  by (cases i) simp_all


lemma editDistance_dist_prefix:
  "editDistance str1 str2 = dist_prefix str1 str2 (length str1) (length str2)"
proof -
  let ?n1 = "length str1" and ?n2 = "length str2"
  let ?D = "dist_prefix str1 str2"
  define m0 where "m0 = replicate (?n2 + 1) (replicate (?n1 + 1) (0::nat))"
  define m1 where "m1 = fold (\<lambda>i m. set_cell 0 i i m) [0 ..< ?n1 + 1] m0"
  define m2 where "m2 = fold (\<lambda>j m. set_cell j 0 j m) [0 ..< ?n2 + 1] m1"
  define inner where "inner = (\<lambda>j m. fold (\<lambda>i m. set_cell j i (cell_value str1 str2 m j i) m)
                                 [1 ..< ?n1 + 1] m)"
  define m3 where "m3 = fold inner [1 ..< ?n2 + 1] m2"
  have ed: "editDistance str1 str2 = m3 ! ?n2 ! ?n1"
    by (simp add: editDistance_def m3_def inner_def m2_def m1_def m0_def Let_def)
  have d0: "dims ?n1 ?n2 m0"
    unfolding m0_def by (rule dims_replicate)
  have p1: "dims ?n1 ?n2 m1 \<and> (\<forall>i' < ?n1 + 1. m1 ! 0 ! i' = i')"
    unfolding m1_def
  proof (rule fold_upt_invariant [where P = "\<lambda>i m. dims ?n1 ?n2 m \<and> (\<forall>i' < i. m ! 0 ! i' = i')"])
    show "0 \<le> ?n1 + 1" by simp
    show "dims ?n1 ?n2 m0 \<and> (\<forall>i' < 0. m0 ! 0 ! i' = i')" using d0 by simp
  next
    fix k t
    assume "0 \<le> k" "k < ?n1 + 1" and inv: "dims ?n1 ?n2 t \<and> (\<forall>i' < k. t ! 0 ! i' = i')"
    then have dm: "dims ?n1 ?n2 t" and kle: "k \<le> ?n1" by simp_all
    have sc: "set_cell 0 k k t ! j' ! i' = (if j' = 0 \<and> i' = k then k else t ! j' ! i')"
      if "j' \<le> ?n2" for j' i'
      using set_cell_nth [OF dm _ kle that] by simp
    show "dims ?n1 ?n2 (set_cell 0 k k t) \<and> (\<forall>i' < Suc k. set_cell 0 k k t ! 0 ! i' = i')"
      using inv by (simp add: set_cell_dims sc)
  qed
  have p2: "dims ?n1 ?n2 m2 \<and> (\<forall>i' \<le> ?n1. m2 ! 0 ! i' = i') \<and> (\<forall>j' < ?n2 + 1. m2 ! j' ! 0 = j')"
    unfolding m2_def
  proof (rule fold_upt_invariant [where P = "\<lambda>j m. dims ?n1 ?n2 m \<and> (\<forall>i' \<le> ?n1. m ! 0 ! i' = i')
        \<and> (\<forall>j' < j. m ! j' ! 0 = j')"])
    show "0 \<le> ?n2 + 1" by simp
    show "dims ?n1 ?n2 m1 \<and> (\<forall>i' \<le> ?n1. m1 ! 0 ! i' = i') \<and> (\<forall>j' < 0. m1 ! j' ! 0 = j')"
      using p1 by simp
  next
    fix k t
    assume "0 \<le> k" "k < ?n2 + 1"
      and inv: "dims ?n1 ?n2 t \<and> (\<forall>i' \<le> ?n1. t ! 0 ! i' = i') \<and> (\<forall>j' < k. t ! j' ! 0 = j')"
    then have dm: "dims ?n1 ?n2 t" and kle: "k \<le> ?n2" by simp_all
    have sc: "set_cell k 0 k t ! j' ! i' = (if j' = k \<and> i' = 0 then k else t ! j' ! i')"
      if "j' \<le> ?n2" for j' i'
      using set_cell_nth [OF dm kle _ that] by simp
    show "dims ?n1 ?n2 (set_cell k 0 k t) \<and> (\<forall>i' \<le> ?n1. set_cell k 0 k t ! 0 ! i' = i')
        \<and> (\<forall>j' < Suc k. set_cell k 0 k t ! j' ! 0 = j')"
      using inv kle by (simp add: set_cell_dims sc)
  qed
  have col: "\<forall>j' \<le> ?n2. m2 ! j' ! 0 = j'"
    using p2 by (simp add: less_Suc_eq_le)
  have start: "filled str1 str2 1 1 m2"
    using p2 col by (simp add: filled_def)
  have inner_step: "filled str1 str2 (Suc j) 1 (inner j m)"
    if j: "1 \<le> j" "j < ?n2 + 1" and f: "filled str1 str2 j 1 m" for j m
  proof -
    have "filled str1 str2 j (?n1 + 1) (inner j m)"
      unfolding inner_def
    proof (rule fold_upt_invariant [where P = "\<lambda>i m. filled str1 str2 j i m"])
      show "1 \<le> ?n1 + 1" by simp
      show "filled str1 str2 j 1 m" by (rule f)
    next
      fix k t
      assume k: "1 \<le> k" "k < ?n1 + 1" and inv: "filled str1 str2 j k t"
      obtain k' j' where kj: "k = Suc k'" "j = Suc j'"
        using k j by (metis One_nat_def Suc_le_D)
      have dm: "dims ?n1 ?n2 t" using inv by (simp add: filled_def)
      have c1: "t ! j ! (k - 1) = ?D k' j"
        using inv j kj by (simp add: filled_def)
      have c2: "t ! (j - 1) ! k = ?D k j'"
        using inv j k kj by (simp add: filled_def)
      have c3: "t ! (j - 1) ! (k - 1) = ?D k' j'"
        using inv j k kj by (simp add: filled_def)
      have cv: "cell_value str1 str2 t j k = ?D k j"
        unfolding cell_value_def Let_def c1 c2 c3 using kj by simp
      have jle: "j \<le> ?n2" and kle: "k \<le> ?n1" using j k by simp_all
      let ?t' = "set_cell j k (cell_value str1 str2 t j k) t"
      have sc: "?t' ! j'' ! i' = (if j'' = j \<and> i' = k then ?D k j else t ! j'' ! i')"
        if "j'' \<le> ?n2" for j'' i'
        using set_cell_nth [OF dm jle kle that] cv by simp
      have row0: "\<forall>i' \<le> ?n1. t ! 0 ! i' = i'"
        and col0: "\<forall>j' \<le> ?n2. t ! j' ! 0 = j'"
        and rows: "\<forall>j' < j. \<forall>i' \<le> ?n1. t ! j' ! i' = ?D i' j'"
        and cur: "\<forall>i' < k. t ! j ! i' = ?D i' j"
        using inv jle by (simp_all add: filled_def)
      have g1: "dims ?n1 ?n2 ?t'" using dm by (rule set_cell_dims)
      have nz: "0 \<noteq> j" "0 \<noteq> k" using kj by simp_all
      have g2: "\<forall>i' \<le> ?n1. ?t' ! 0 ! i' = i'"
        using row0 nz by (simp add: sc)
      have g3: "\<forall>j' \<le> ?n2. ?t' ! j' ! 0 = j'"
        using col0 nz by (simp add: sc)
      have g4: "\<forall>j' < j. \<forall>i' \<le> ?n1. ?t' ! j' ! i' = ?D i' j'"
      proof (intro allI impI)
        fix j'' i' assume a: "j'' < j" "i' \<le> ?n1"
        then have "j'' \<le> ?n2" using jle by simp
        then show "?t' ! j'' ! i' = ?D i' j''" using a rows by (simp add: sc)
      qed
      have g5: "\<forall>i' < Suc k. ?t' ! j ! i' = ?D i' j"
      proof (intro allI impI)
        fix i' assume a: "i' < Suc k"
        show "?t' ! j ! i' = ?D i' j"
        proof (cases "i' = k")
          case True then show ?thesis using jle by (simp add: sc)
        next
          case False
          then have "i' < k" using a by simp
          then show ?thesis using cur jle False by (simp add: sc)
        qed
      qed
      show "filled str1 str2 j (Suc k) ?t'"
        unfolding filled_def using g1 g2 g3 g4 g5 by blast
    qed
    then have fin: "dims ?n1 ?n2 (inner j m)"
        "\<forall>i' \<le> ?n1. inner j m ! 0 ! i' = i'"
        "\<forall>j' \<le> ?n2. inner j m ! j' ! 0 = j'"
        "\<forall>j' < j. \<forall>i' \<le> ?n1. inner j m ! j' ! i' = ?D i' j'"
        "\<forall>i' \<le> ?n1. inner j m ! j ! i' = ?D i' j"
      using j by (simp_all add: filled_def less_Suc_eq_le)
    have h4: "\<forall>j' < Suc j. \<forall>i' \<le> ?n1. inner j m ! j' ! i' = ?D i' j'"
    proof (intro allI impI)
      fix j' i' assume a: "j' < Suc j" "i' \<le> ?n1"
      show "inner j m ! j' ! i' = ?D i' j'"
      proof (cases "j' = j")
        case True then show ?thesis using fin(5) a by simp
      next
        case False
        then have "j' < j" using a by simp
        then show ?thesis using fin(4) a by simp
      qed
    qed
    have h5: "Suc j \<le> ?n2 \<longrightarrow> (\<forall>i' < 1. inner j m ! Suc j ! i' = ?D i' (Suc j))"
      using fin(3) by simp
    show ?thesis
      unfolding filled_def using fin(1,2,3) h4 h5 by blast
  qed
  have "filled str1 str2 (?n2 + 1) 1 m3"
    unfolding m3_def
  proof (rule fold_upt_invariant [where P = "\<lambda>j m. filled str1 str2 j 1 m"])
    show "1 \<le> ?n2 + 1" by simp
    show "filled str1 str2 1 1 m2" by (rule start)
  next
    fix k t
    assume "1 \<le> k" "k < ?n2 + 1" "filled str1 str2 k 1 t"
    then show "filled str1 str2 (Suc k) 1 (inner k t)" by (rule inner_step)
  qed
  then have "m3 ! ?n2 ! ?n1 = ?D ?n1 ?n2"
    by (simp add: filled_def)
  with ed show ?thesis by simp
qed

section \<open>The matrix computes the classic edit distance\<close>

lemma levenshtein_Nil2 [simp]: "levenshtein xs [] = length xs"
  by (cases xs) simp_all

lemma edits_levenshtein: "edits (levenshtein xs ys) xs ys"
proof (induction xs ys rule: levenshtein.induct)
  case (1 ys)
  show ?case by (induction ys) (auto intro: edits.intros)
next
  case (2 v va)
  have "edits (length xs) xs []" for xs :: "'a list"
    by (induction xs) (auto intro: edits.intros)
  from this [of "v # va"] show ?case by simp
next
  case (3 x xs y ys)
  let ?a = "levenshtein xs (y # ys) + 1" and ?b = "levenshtein (x # xs) ys + 1"
    and ?c = "levenshtein xs ys + (if x = y then 0 else 1)"
  have a: "edits ?a (x # xs) (y # ys)" using 3(1) by (auto intro: edits.Delete)
  have b: "edits ?b (x # xs) (y # ys)" using 3(2) by (auto intro: edits.Insert)
  have c: "edits ?c (x # xs) (y # ys)" using 3(3) by (auto intro: edits.Keep edits.Subst)
  have "min (min ?a ?b) ?c = ?a \<or> min (min ?a ?b) ?c = ?b \<or> min (min ?a ?b) ?c = ?c"
    by (simp add: min_def)
  then show ?case using a b c by (simp only: levenshtein.simps) metis
qed

lemma levenshtein_le_edits: "edits n xs ys \<Longrightarrow> levenshtein xs ys \<le> n"
proof (induction rule: edits.induct)
  case Done
  show ?case by simp
next
  case (Keep n xs ys x)
  then show ?case by (simp add: min.coboundedI2)
next
  case (Subst n xs ys x y)
  then show ?case by (simp add: min.coboundedI2)
next
  case (Delete n xs ys x)
  then show ?case by (cases ys) (simp_all add: min.coboundedI1)
next
  case (Insert n xs ys y)
  then show ?case by (cases xs) (simp_all add: min.coboundedI1)
qed

lemma edits_snoc_keep: "edits n xs ys \<Longrightarrow> edits n (xs @ [a]) (ys @ [a])"
  by (induction rule: edits.induct) (auto intro: edits.intros)

lemma edits_snoc_subst: "edits n xs ys \<Longrightarrow> edits (Suc n) (xs @ [a]) (ys @ [b])"
  by (induction rule: edits.induct) (auto intro: edits.intros)

lemma edits_snoc_delete: "edits n xs ys \<Longrightarrow> edits (Suc n) (xs @ [a]) ys"
  by (induction rule: edits.induct) (auto intro: edits.intros)

lemma edits_snoc_insert: "edits n xs ys \<Longrightarrow> edits (Suc n) xs (ys @ [b])"
  by (induction rule: edits.induct) (auto intro: edits.intros)

lemma edits_rev: "edits n xs ys \<Longrightarrow> edits n (rev xs) (rev ys)"
  by (induction rule: edits.induct)
     (auto intro: edits.Done edits_snoc_keep edits_snoc_subst edits_snoc_delete edits_snoc_insert)

lemma levenshtein_rev_le: "levenshtein (rev xs) (rev ys) \<le> levenshtein xs ys"
  by (rule levenshtein_le_edits) (rule edits_rev, rule edits_levenshtein)

lemma levenshtein_rev: "levenshtein (rev xs) (rev ys) = levenshtein xs ys"
  using levenshtein_rev_le [of xs ys] levenshtein_rev_le [of "rev xs" "rev ys"] by simp

lemma levenshtein_snoc:
  "levenshtein (xs @ [x]) (ys @ [y]) =
     min (min (levenshtein xs (ys @ [y]) + 1) (levenshtein (xs @ [x]) ys + 1))
         (levenshtein xs ys + (if x = y then 0 else 1))"
proof -
  have "levenshtein (xs @ [x]) (ys @ [y]) = levenshtein (x # rev xs) (y # rev ys)"
    using levenshtein_rev [of "xs @ [x]" "ys @ [y]"] by simp
  also have "\<dots> = min (min (levenshtein (rev xs) (rev (ys @ [y])) + 1)
                          (levenshtein (rev (xs @ [x])) (rev ys) + 1))
                     (levenshtein (rev xs) (rev ys) + (if x = y then 0 else 1))"
    by simp
  finally show ?thesis by (simp only: levenshtein_rev)
qed

lemma dist_prefix_levenshtein:
  "i \<le> length a \<Longrightarrow> j \<le> length b \<Longrightarrow> dist_prefix a b i j = levenshtein (take i a) (take j b)"
proof (induction a b i j rule: dist_prefix.induct)
  case (1 a b j)
  then show ?case by simp
next
  case (2 a b i)
  then show ?case by simp
next
  case (3 a b i j)
  then have ia: "i < length a" and jb: "j < length b" by simp_all
  have ta: "take (Suc i) a = take i a @ [a ! i]" using ia by (rule take_Suc_conv_app_nth)
  have tb: "take (Suc j) b = take j b @ [b ! j]" using jb by (rule take_Suc_conv_app_nth)
  have "levenshtein (take (Suc i) a) (take (Suc j) b) =
     min (min (levenshtein (take i a) (take (Suc j) b) + 1)
              (levenshtein (take (Suc i) a) (take j b) + 1))
         (levenshtein (take i a) (take j b) + (if a ! i = b ! j then 0 else 1))"
    unfolding ta tb by (rule levenshtein_snoc)
  then show ?case using 3 ia jb by simp
qed

lemma editDistance_levenshtein: "editDistance str1 str2 = levenshtein str1 str2"
  by (simp add: editDistance_dist_prefix dist_prefix_levenshtein)

lemma levenshtein_least: "levenshtein xs ys = (LEAST n. edits n xs ys)"
  by (rule Least_equality [symmetric]) (auto intro: edits_levenshtein levenshtein_le_edits)

lemma levenshtein_sym: "levenshtein xs ys = levenshtein ys xs"
proof (induction xs ys rule: levenshtein.induct)
  case (1 ys)
  show ?case by simp
next
  case (2 v va)
  show ?case by simp
next
  case (3 x xs y ys)
  have "(if y = x then 0 else 1) = (if x = y then 0 else (1::nat))" by auto
  then show ?case
    using 3 by (simp only: levenshtein.simps min.commute)
qed

lemma levenshtein_same: "levenshtein xs xs = 0"
  by (induction xs) simp_all

lemma levenshtein_le_max: "levenshtein xs ys \<le> max (length xs) (length ys)"
proof (induction xs ys rule: levenshtein.induct)
  case (1 ys)
  show ?case by simp
next
  case (2 v va)
  show ?case by simp
next
  case (3 x xs y ys)
  have "levenshtein (x # xs) (y # ys) \<le> levenshtein xs ys + (if x = y then 0 else 1)"
    by (simp only: levenshtein.simps min.cobounded2)
  also have "\<dots> \<le> levenshtein xs ys + 1" by simp
  also have "\<dots> \<le> max (length xs) (length ys) + 1" using 3(3) by simp
  finally show ?case by simp
qed

section \<open>Properties of the similarity\<close>

lemma similarity_formula:
  "calculateStringSimilarity a b =
     (if a = [] \<and> b = [] then 1
      else (of_nat (max (length a) (length b)) - of_nat (levenshtein a b))
             / of_nat (max (length a) (length b)))"
proof (cases "length a > length b")
  case True
  then show ?thesis
    by (auto simp: calculateStringSimilarity_def editDistance_levenshtein max_def)
next
  case False
  then show ?thesis
    by (auto simp: calculateStringSimilarity_def editDistance_levenshtein max_def
        levenshtein_sym [of b a])
qed

lemma similarity_bounds:
  "0 \<le> calculateStringSimilarity a b \<and> calculateStringSimilarity a b \<le> 1"
proof (cases "a = [] \<and> b = []")
  case True
  then show ?thesis by (simp add: similarity_formula)
next
  case False
  let ?L = "max (length a) (length b)"
  have pos: "0 < ?L" using False by (auto simp: max_def)
  have le: "levenshtein a b \<le> ?L" by (rule levenshtein_le_max)
  have eq: "calculateStringSimilarity a b = (of_nat ?L - of_nat (levenshtein a b)) / of_nat ?L"
    using False by (simp add: similarity_formula)
  have "(0::rat) \<le> of_nat ?L - of_nat (levenshtein a b)"
    using le by simp
  moreover have "(of_nat ?L - of_nat (levenshtein a b) :: rat) \<le> of_nat ?L"
    by simp
  ultimately show ?thesis
    unfolding eq using pos by (simp add: divide_le_eq_1)
qed

section \<open>Properties of the heuristic classifier\<close>

lemma js_includes_iff: "js_includes s k \<longleftrightarrow> (\<exists>pre post. s = pre @ k @ post)"
proof (induction s)
  case Nil
  show ?case by auto
next
  case (Cons c cs)
  show ?case
  proof
    assume "js_includes (c # cs) k"
    then consider "take (length k) (c # cs) = k" | "js_includes cs k" by auto
    then show "\<exists>pre post. c # cs = pre @ k @ post"
    proof cases
      case 1
      then have "c # cs = [] @ k @ drop (length k) (c # cs)"
        by (metis append_Nil append_take_drop_id)
      then show ?thesis by blast
    next
      case 2
      then obtain pre post where "cs = pre @ k @ post" using Cons.IH by blast
      then have "c # cs = (c # pre) @ k @ post" by simp
      then show ?thesis by blast
    qed
  next
    assume "\<exists>pre post. c # cs = pre @ k @ post"
    then obtain pre post where e: "c # cs = pre @ k @ post" by blast
    show "js_includes (c # cs) k"
    proof (cases pre)
      case Nil
      then have "take (length k) (c # cs) = k" using e by simp
      then show ?thesis by simp
    next
      case (Cons p ps)
      then have "cs = ps @ k @ post" using e by simp
      then have "js_includes cs k" using Cons.IH by blast
      then show ?thesis by simp
    qed
  qed
qed

lemma score_loop_riskPatterns:
  "score_loop riskPatterns s =
     (if tier_matches high_patterns s then 8
      else if tier_matches moderate_patterns s then 5
      else if tier_matches low_patterns s then 2
      else if tier_matches veryLow_patterns s then 1
      else 5)"
  by (simp add: riskPatterns_def)

lemma calculateDefaultScore_range:
  "calculateDefaultScore s \<in> {1, 2, 5, 8}"
  by (simp add: calculateDefaultScore_def score_loop_riskPatterns)

section \<open>Properties of the adapter and the merge\<close>

lemma keyword_loop_result:
  "keyword_loop table fallback s \<in> insert fallback (set (map fst table))"
  by (induction table fallback s rule: keyword_loop.induct) auto

lemma getCommonUse_nonempty: "getCommonUse nm \<noteq> []"
proof -
  have "getCommonUse nm \<in> insert ''Various applications'' (set (map fst uses_table))"
    unfolding getCommonUse_def by (rule keyword_loop_result)
  moreover have "[] \<notin> insert ''Various applications'' (set (map fst uses_table))"
    by (simp add: uses_table_def)
  ultimately show ?thesis by metis
qed

lemma getIngredientFunction_nonempty: "getIngredientFunction nm \<noteq> []"
proof -
  have "getIngredientFunction nm \<in> insert ''Other/Unknown'' (set (map fst functions_table))"
    unfolding getIngredientFunction_def by (rule keyword_loop_result)
  moreover have "[] \<notin> insert ''Other/Unknown'' (set (map fst functions_table))"
    by (simp add: functions_table_def)
  ultimately show ?thesis by metis
qed

lemma fetchEWGData_structured:
  "fetchEWGData (Structured (p # ps)) nm = Inr (Some (structured_record p nm))"
  by (simp add: fetchEWGData_def fetchEWGData_try_def)

lemma fetchEWGData_returns: "\<exists>r. fetchEWGData response nm = Inr r"
  by (cases "fetchEWGData_try response nm") (simp_all add: fetchEWGData_def)

lemma fetchEWGData_caught:
  "fetchEWGData_try response nm = Inl e \<Longrightarrow> fetchEWGData response nm = Inr None"
  by (simp add: fetchEWGData_def)

lemma merge_record_commonUse:
  assumes "merge_record ewgData dbMatch nm = Inr r"
  shows "commonUse r = (case ewgData of None \<Rightarrow> getCommonUse nm
           | Some p \<Rightarrow> if p_commonUse p \<noteq> [] then p_commonUse p else getCommonUse nm)"
  using assms
  by (auto simp: merge_record_def Let_def truthy_str_def split: sum.splits option.splits if_splits)

lemma merge_record_succeeds:
  assumes "dbMatch \<noteq> Some Inherited"
  shows "\<exists>r. merge_record ewgData dbMatch nm = Inr r"
proof -
  have "\<exists>s. (case dbMatch of Some m \<Rightarrow> match_concerns_join m
           | None \<Rightarrow> Inr (getDefaultConcern (Num (calculateDefaultScore nm)))) = Inr s"
    using assms by (auto simp: match_concerns_join_def split: option.splits db_match.splits)
  then show ?thesis
    by (auto simp: merge_record_def Let_def split: sum.splits)
qed

section \<open>Properties of the score parser\<close>

lemma decimal_Cons:
  "decimal (c # cs) = (int (of_char c) - 48) * 10 ^ length cs + decimal cs"
  by (simp add: decimal_def sum.lessThan_Suc_shift del: sum.lessThan_Suc)

lemma parseInt_foldl:
  "foldl (\<lambda>acc c. acc * 10 + (int (of_char c) - 48)) a ds = a * 10 ^ length ds + decimal ds"
proof (induction ds arbitrary: a)
  case Nil
  show ?case by (simp add: decimal_def)
next
  case (Cons c cs)
  let ?f = "\<lambda>acc c. acc * 10 + (int (of_char c) - 48)"
  have "foldl ?f a (c # cs) = foldl ?f (a * 10 + (int (of_char c) - 48)) cs"
    by simp
  also have "\<dots> = (a * 10 + (int (of_char c) - 48)) * 10 ^ length cs + decimal cs"
    by (rule Cons.IH)
  also have "\<dots> = a * 10 ^ length (c # cs) + decimal (c # cs)"
    by (simp add: decimal_Cons algebra_simps)
  finally show ?case .
qed

lemma parseInt_decimal: "parseInt ds = decimal ds"
  by (simp add: parseInt_def parseInt_foldl)

lemma first_digits_run:
  assumes "\<forall>c \<in> set pre. \<not> is_digit c" and "ds \<noteq> []" and "\<forall>c \<in> set ds. is_digit c"
    and "post = [] \<or> \<not> is_digit (hd post)"
  shows "first_digits (pre @ ds @ post) = ds"
proof -
  have "dropWhile (\<lambda>c. \<not> is_digit c) (pre @ ds @ post) = ds @ post"
    using assms(1-3) by (cases ds) (simp_all add: dropWhile_append3 dropWhile_append)
  moreover have "takeWhile is_digit (ds @ post) = ds"
    using assms(3,4) by (cases post) (simp_all add: takeWhile_tail)
  ultimately show ?thesis by (simp add: first_digits_def)
qed

lemma length_toLowerCase [simp]: "length (toLowerCase s) = length s"
  by (simp add: toLowerCase_def)

lemma toLowerCase_take: "toLowerCase (take n s) = take n (toLowerCase s)"
  by (simp add: toLowerCase_def take_map)

lemma word_scan_iff:
  assumes "[] \<notin> set ks"
  shows "word_scan ks prev s \<longleftrightarrow>
    (\<exists>pre mid post. s = pre @ mid @ post \<and> toLowerCase mid \<in> set ks \<and>
       (if pre = [] then \<not> prev else \<not> is_word_char (last pre)) \<and>
       (post = [] \<or> \<not> is_word_char (hd post)))"
proof (induction s arbitrary: prev)
  case Nil
  show ?case using assms by (auto simp: toLowerCase_def)
next
  case (Cons c cs)
  let ?R = "\<lambda>prev s. \<exists>pre mid post. s = pre @ mid @ post \<and> toLowerCase mid \<in> set ks \<and>
       (if pre = [] then \<not> prev else \<not> is_word_char (last pre)) \<and>
       (post = [] \<or> \<not> is_word_char (hd post))"
  have here: "list_ex (\<lambda>k. kw_at k (c # cs)) ks \<longleftrightarrow>
      (\<exists>mid post. c # cs = mid @ post \<and> toLowerCase mid \<in> set ks \<and>
         (post = [] \<or> \<not> is_word_char (hd post)))"
  proof
    assume "list_ex (\<lambda>k. kw_at k (c # cs)) ks"
    then obtain k where k: "k \<in> set ks" "kw_at k (c # cs)" by (auto simp: list_ex_iff)
    let ?mid = "take (length k) (c # cs)" and ?post = "drop (length k) (c # cs)"
    have "c # cs = ?mid @ ?post" by simp
    moreover have "toLowerCase ?mid \<in> set ks" using k by (simp add: kw_at_def)
    moreover have "?post = [] \<or> \<not> is_word_char (hd ?post)"
      using k(2) by (auto simp: kw_at_def split: list.splits)
    ultimately show "\<exists>mid post. c # cs = mid @ post \<and> toLowerCase mid \<in> set ks \<and>
         (post = [] \<or> \<not> is_word_char (hd post))" by blast
  next
    assume "\<exists>mid post. c # cs = mid @ post \<and> toLowerCase mid \<in> set ks \<and>
         (post = [] \<or> \<not> is_word_char (hd post))"
    then obtain mid post where m: "c # cs = mid @ post" "toLowerCase mid \<in> set ks"
      "post = [] \<or> \<not> is_word_char (hd post)" by blast
    have len: "length (toLowerCase mid) = length mid" by simp
    have "take (length (toLowerCase mid)) (c # cs) = mid" using m(1) by (simp add: len)
    moreover have "drop (length (toLowerCase mid)) (c # cs) = post" using m(1) by (simp add: len)
    ultimately have "kw_at (toLowerCase mid) (c # cs)"
      using m(3) by (auto simp: kw_at_def split: list.splits)
    then show "list_ex (\<lambda>k. kw_at k (c # cs)) ks" using m(2) by (auto simp: list_ex_iff)
  qed
  have later: "?R (is_word_char c) cs \<longleftrightarrow>
      (\<exists>pre mid post. c # cs = pre @ mid @ post \<and> pre \<noteq> [] \<and> toLowerCase mid \<in> set ks \<and>
         \<not> is_word_char (last pre) \<and> (post = [] \<or> \<not> is_word_char (hd post)))"
  proof
    assume "?R (is_word_char c) cs"
    then obtain pre mid post where r: "cs = pre @ mid @ post" "toLowerCase mid \<in> set ks"
      "if pre = [] then \<not> is_word_char c else \<not> is_word_char (last pre)"
      "post = [] \<or> \<not> is_word_char (hd post)" by blast
    have "c # cs = (c # pre) @ mid @ post" using r(1) by simp
    moreover have "\<not> is_word_char (last (c # pre))" using r(3) by (cases pre) auto
    ultimately show "\<exists>pre mid post. c # cs = pre @ mid @ post \<and> pre \<noteq> [] \<and>
        toLowerCase mid \<in> set ks \<and> \<not> is_word_char (last pre) \<and>
        (post = [] \<or> \<not> is_word_char (hd post))"
      using r(2,4) by blast
  next
    assume "\<exists>pre mid post. c # cs = pre @ mid @ post \<and> pre \<noteq> [] \<and> toLowerCase mid \<in> set ks \<and>
         \<not> is_word_char (last pre) \<and> (post = [] \<or> \<not> is_word_char (hd post))"
    then obtain pre mid post where r: "c # cs = pre @ mid @ post" "pre \<noteq> []"
      "toLowerCase mid \<in> set ks" "\<not> is_word_char (last pre)"
      "post = [] \<or> \<not> is_word_char (hd post)" by blast
    obtain pre' where p: "pre = c # pre'" using r(1,2) by (cases pre) auto
    have "cs = pre' @ mid @ post" using r(1) p by simp
    moreover have "if pre' = [] then \<not> is_word_char c else \<not> is_word_char (last pre')"
      using r(4) p by (cases pre') auto
    ultimately show "?R (is_word_char c) cs" using r(3,5) by blast
  qed
  have "word_scan ks prev (c # cs) \<longleftrightarrow>
      (\<not> prev \<and> list_ex (\<lambda>k. kw_at k (c # cs)) ks) \<or> ?R (is_word_char c) cs"
    by (simp add: Cons.IH)
  also have "\<dots> \<longleftrightarrow> ?R prev (c # cs)"
  proof
    assume "(\<not> prev \<and> list_ex (\<lambda>k. kw_at k (c # cs)) ks) \<or> ?R (is_word_char c) cs"
    then show "?R prev (c # cs)"
    proof
      assume a: "\<not> prev \<and> list_ex (\<lambda>k. kw_at k (c # cs)) ks"
      then obtain mid post where "c # cs = [] @ mid @ post" "toLowerCase mid \<in> set ks"
        "post = [] \<or> \<not> is_word_char (hd post)" using here by auto
      then show ?thesis using a
        by (intro exI [of _ "[]"] exI [of _ mid] exI [of _ post]) simp
    next
      assume "?R (is_word_char c) cs"
      then obtain pre mid post where "c # cs = pre @ mid @ post" "pre \<noteq> []"
        "toLowerCase mid \<in> set ks" "\<not> is_word_char (last pre)"
        "post = [] \<or> \<not> is_word_char (hd post)" using later by blast
      then show ?thesis
        by (intro exI [of _ pre] exI [of _ mid] exI [of _ post]) simp
    qed
  next
    assume "?R prev (c # cs)"
    then obtain pre mid post where r: "c # cs = pre @ mid @ post" "toLowerCase mid \<in> set ks"
      "if pre = [] then \<not> prev else \<not> is_word_char (last pre)"
      "post = [] \<or> \<not> is_word_char (hd post)" by blast
    show "(\<not> prev \<and> list_ex (\<lambda>k. kw_at k (c # cs)) ks) \<or> ?R (is_word_char c) cs"
    proof (cases "pre = []")
      case True
      then have "\<not> prev" and "c # cs = mid @ post" using r(1,3) by simp_all
      then show ?thesis using here r(2,4) by blast
    next
      case False
      then have "\<not> is_word_char (last pre)" using r(3) by simp
      then have "?R (is_word_char c) cs" using later r(1,2,4) False by blast
      then show ?thesis by blast
    qed
  qed
  finally show ?case .
qed

lemma rx_word_test_whole_word:
  assumes "[] \<notin> set ks"
  shows "rx_word_test ks s \<longleftrightarrow> whole_word ks s"
proof -
  have "(if pre = [] then \<not> False else \<not> is_word_char (last pre))
      = (pre = [] \<or> \<not> is_word_char (last pre))" for pre :: string
    by simp
  then show ?thesis
    unfolding rx_word_test_def whole_word_def word_scan_iff [OF assms] by simp
qed

lemma riskLevels_nonempty:
  "[] \<notin> set riskLevels_low" "[] \<notin> set riskLevels_moderate" "[] \<notin> set riskLevels_high"
  by (simp_all add: riskLevels_low_def riskLevels_moderate_def riskLevels_high_def)

lemma parseScore_range: "parseScore t = Some s \<Longrightarrow> 1 \<le> s \<and> s \<le> 10"
  by (auto simp: parseScore_def split: option.splits if_splits)

lemma digit_run_exists:
  assumes "list_ex is_digit t"
  shows "\<exists>pre ds post. t = pre @ ds @ post \<and> (\<forall>c \<in> set pre. \<not> is_digit c) \<and> ds \<noteq> [] \<and>
           (\<forall>c \<in> set ds. is_digit c) \<and> (post = [] \<or> \<not> is_digit (hd post))"
proof -
  let ?rest = "dropWhile (\<lambda>c. \<not> is_digit c) t"
  let ?pre = "takeWhile (\<lambda>c. \<not> is_digit c) t"
  let ?ds = "takeWhile is_digit ?rest" and ?post = "dropWhile is_digit ?rest"
  have ne: "?rest \<noteq> []" using assms by (auto simp: list_ex_iff dropWhile_eq_Nil_conv)
  then have "is_digit (hd ?rest)" using hd_dropWhile [of "\<lambda>c. \<not> is_digit c" t] by simp
  then have d: "?ds \<noteq> []" using ne by (cases ?rest) auto
  have "t = ?pre @ ?ds @ ?post" by simp
  moreover have "\<forall>c \<in> set ?pre. \<not> is_digit c" by (auto dest: set_takeWhileD)
  moreover have "\<forall>c \<in> set ?ds. is_digit c" by (auto dest: set_takeWhileD)
  moreover have "?post = [] \<or> \<not> is_digit (hd ?post)"
    using hd_dropWhile [of is_digit ?rest] by blast
  ultimately show ?thesis using d by blast
qed

section \<open>Properties of the database lookup\<close>

lemma best_match_keep:
  assumes "\<forall>(k, v) \<in> set tbl. \<not> (calculateStringSimilarity n k > hi \<and> calculateStringSimilarity n k > 8 / 10)"
  shows "best_match n tbl best hi = best"
  using assms by (induction tbl) (auto simp: Let_def)

lemma best_match_first_maximum:
  assumes "calculateStringSimilarity n k > 8 / 10"
    and "hi < calculateStringSimilarity n k"
    and "\<forall>(k', v') \<in> set before. calculateStringSimilarity n k' < calculateStringSimilarity n k"
    and "\<forall>(k', v') \<in> set after. calculateStringSimilarity n k' \<le> calculateStringSimilarity n k"
  shows "best_match n (before @ (k, v) # after) best hi = Some v"
  using assms(2,3)
proof (induction before arbitrary: best hi)
  case Nil
  have "best_match n after (Some v) (calculateStringSimilarity n k) = Some v"
    using assms(4) by (intro best_match_keep) auto
  then show ?case using assms(1) Nil.prems(1) by (simp add: Let_def)
next
  case (Cons a before)
  obtain k0 v0 where a: "a = (k0, v0)" by (cases a)
  have lt: "calculateStringSimilarity n k0 < calculateStringSimilarity n k"
    using Cons.prems(2) a by simp
  have rest: "\<forall>(k', v') \<in> set before. calculateStringSimilarity n k' < calculateStringSimilarity n k"
    using Cons.prems(2) by simp
  show ?case
    using Cons.IH [OF lt rest] Cons.IH [OF Cons.prems(1) rest]
    by (simp add: a Let_def)
qed

lemma best_match_none:
  assumes "\<forall>(k, v) \<in> set tbl. calculateStringSimilarity n k \<le> 8 / 10"
  shows "best_match n tbl None 0 = None"
  using assms by (intro best_match_keep) auto

lemma best_match_from_table:
  "best_match n tbl best hi = Some v \<Longrightarrow> best = Some v \<or> v \<in> snd ` set tbl"
proof (induction tbl arbitrary: best hi)
  case Nil
  then show ?case by simp
next
  case (Cons a tbl)
  obtain k0 v0 where a: "a = (k0, v0)" by (cases a)
  have eq: "(if calculateStringSimilarity n k0 > hi \<and> calculateStringSimilarity n k0 > 8 / 10
              then best_match n tbl (Some v0) (calculateStringSimilarity n k0)
              else best_match n tbl best hi) = Some v"
    using Cons.prems by (simp only: a best_match.simps Let_def)
  show ?case
  proof (cases "calculateStringSimilarity n k0 > hi \<and> calculateStringSimilarity n k0 > 8 / 10")
    case True
    have "best_match n tbl (Some v0) (calculateStringSimilarity n k0) = Some v"
      using eq unfolding if_P [OF True] .
    then have "Some v0 = Some v \<or> v \<in> snd ` set tbl" by (rule Cons.IH)
    then show ?thesis by (auto simp: a)
  next
    case False
    have "best_match n tbl best hi = Some v"
      using eq unfolding if_not_P [OF False] .
    then have "best = Some v \<or> v \<in> snd ` set tbl" by (rule Cons.IH)
    then show ?thesis by auto
  qed
qed

lemma findIngredientInDatabase_entry:
  "findIngredientInDatabase nm = Some (Entry e) \<Longrightarrow> e \<in> snd ` set ingredientDatabase"
proof -
  assume f: "findIngredientInDatabase nm = Some (Entry e)"
  show ?thesis
  proof (cases "map_of ingredientDatabase (toLowerCase nm)")
    case (Some e')
    then have "e' = e" using f by (simp add: findIngredientInDatabase_def)
    moreover have "(toLowerCase nm, e') \<in> set ingredientDatabase" using Some by (rule map_of_SomeD)
    ultimately show ?thesis by force
  next
    case None
    then have "best_match (toLowerCase nm) ingredientDatabase None 0 = Some e"
      using f by (auto simp: findIngredientInDatabase_def Let_def split: if_splits)
    then show ?thesis using best_match_from_table by fastforce
  qed
qed

lemma baseScore_range:
  "e \<in> snd ` set ingredientDatabase \<Longrightarrow> 1 \<le> baseScore e \<and> baseScore e \<le> 10"
  by (auto simp: ingredientDatabase_def)

section \<open>Properties of the tokenizer and the loop\<close>

lemma of_char_lower_char:
  "(of_char (lower_char c) :: nat) =
     (if (65 \<le> (of_char c :: nat) \<and> (of_char c :: nat) \<le> 90)
         \<or> (192 \<le> (of_char c :: nat) \<and> (of_char c :: nat) \<le> 222 \<and> (of_char c :: nat) \<noteq> 215)
      then of_char c + 32 else of_char c)"
  by (simp add: lower_char_def Let_def)

lemma is_sep_code: "is_sep c \<longleftrightarrow> (of_char c :: nat) \<in> {44, 59, 10}"
proof -
  have "of_char (CHR '','') = (44::nat)" "of_char (CHR '';'') = (59::nat)"
    "of_char (CHR 0x0A) = (10::nat)"
    by simp_all
  then have "(c = CHR '','') = ((of_char c :: nat) = 44)"
    "(c = CHR '';'') = ((of_char c :: nat) = 59)"
    "(c = CHR 0x0A) = ((of_char c :: nat) = 10)"
    by (metis of_char_eq_iff)+
  then show ?thesis unfolding is_sep_def by simp
qed

lemma is_sep_lower [simp]: "is_sep (lower_char c) = is_sep c"
  by (auto simp: is_sep_code of_char_lower_char)

lemma is_space_lower [simp]: "is_space (lower_char c) = is_space c"
  by (auto simp: is_space_def of_char_lower_char Let_def)

lemma split_seps_lower:
  "split_seps (map lower_char cur) (map lower_char s) = map (map lower_char) (split_seps cur s)"
proof (induction cur s rule: split_seps.induct)
  case (1 cur)
  show ?case by simp
next
  case (2 cur c cs)
  have dw: "dropWhile is_sep (map lower_char cs) = map lower_char (dropWhile is_sep cs)"
    by (simp add: dropWhile_map comp_def)
  show ?case
  proof (cases "is_sep c")
    case True
    then show ?thesis using 2(1) by (simp add: dw)
  next
    case False
    then show ?thesis using 2(2) by simp
  qed
qed

lemma trim_lower: "trim (map lower_char s) = map lower_char (trim s)"
  by (simp add: trim_def dropWhile_map comp_def rev_map)

lemma ingredientsArray_tokens_spec: "ingredientsArray s = tokens_spec s"
proof -
  have "split_seps [] (toLowerCase s) = map toLowerCase (split_seps [] s)"
    using split_seps_lower [of "[]" s] by (simp add: toLowerCase_def [abs_def])
  then have "map trim (split_seps [] (toLowerCase s))
      = map toLowerCase (map trim (split_seps [] s))"
    by (simp add: toLowerCase_def [abs_def] trim_lower)
  moreover have "(t \<noteq> [] \<and> length t > 1) = (t \<noteq> [] \<and> length t \<noteq> 1)" for t :: string
    by (cases t) auto
  ultimately show ?thesis
    by (simp add: ingredientsArray_def tokens_spec_def filter_map comp_def
        toLowerCase_def [abs_def] del: One_nat_def)
qed

lemma split_seps_chars:
  "t \<in> set (split_seps cur s) \<Longrightarrow> set t \<subseteq> set cur \<union> set s"
proof (induction cur s rule: split_seps.induct)
  case (1 cur)
  then show ?case by simp
next
  case (2 cur c cs)
  show ?case
  proof (cases "is_sep c")
    case True
    then have "t = cur \<or> t \<in> set (split_seps [] (dropWhile is_sep cs))"
      using 2(3) by simp
    then show ?thesis
    proof
      assume "t = cur" then show ?thesis by auto
    next
      assume "t \<in> set (split_seps [] (dropWhile is_sep cs))"
      then have "set t \<subseteq> set [] \<union> set (dropWhile is_sep cs)" using 2(1) True by blast
      then show ?thesis using set_dropWhileD by fastforce
    qed
  next
    case False
    then have "t \<in> set (split_seps (cur @ [c]) cs)" using 2(3) by simp
    then have "set t \<subseteq> set (cur @ [c]) \<union> set cs" using 2(2) False by blast
    then show ?thesis by auto
  qed
qed

lemma trim_all_space:
  assumes "\<forall>c \<in> set t. is_space c"
  shows "trim t = []"
  using assms by (auto simp: trim_def dest: set_dropWhileD)

lemma ingredientsArray_whitespace:
  assumes "\<forall>c \<in> set s. is_space c"
  shows "ingredientsArray s = []"
proof -
  have "trim t = []" if "t \<in> set (split_seps [] (toLowerCase s))" for t
  proof -
    have "set t \<subseteq> set (toLowerCase s)" using split_seps_chars [OF that] by simp
    then have "\<forall>c \<in> set t. is_space c" using assms by (auto simp: toLowerCase_def)
    then show ?thesis by (rule trim_all_space)
  qed
  then show ?thesis
    by (auto simp: ingredientsArray_def filter_empty_conv)
qed

lemma merge_record_name: "merge_record ewgData dbMatch nm = Inr r \<Longrightarrow> name r = titleCase nm"
  by (auto simp: merge_record_def Let_def split: sum.splits)

lemma analyzeIngredient_name: "analyzeIngredient response nm = Inr r \<Longrightarrow> name r = titleCase nm"
  by (auto simp: analyzeIngredient_def split: sum.splits dest: merge_record_name)

lemma analyzeIngredient_succeeds:
  assumes "findIngredientInDatabase nm \<noteq> Some Inherited"
  shows "\<exists>r. analyzeIngredient response nm = Inr r"
proof -
  obtain d where "fetchEWGData response nm = Inr d" using fetchEWGData_returns by blast
  then show ?thesis
    using merge_record_succeeds [OF assms] by (simp add: analyzeIngredient_def)
qed

lemma analyze_loop_records:
  assumes "\<forall>nm \<in> set names. findIngredientInDatabase nm \<noteq> Some Inherited"
  shows "\<exists>rs. analyze_loop remote k names acc = Inr (acc @ rs) \<and> length rs = length names
           \<and> map name rs = map titleCase names
           \<and> (\<forall>i < length names. analyzeIngredient (remote (k + i)) (names ! i) = Inr (rs ! i))"
  using assms
proof (induction names arbitrary: k acc)
  case Nil
  then show ?case by simp
next
  case (Cons nm names)
  obtain r where r: "analyzeIngredient (remote k) nm = Inr r"
    using analyzeIngredient_succeeds Cons.prems by (meson list.set_intros(1))
  have "\<forall>nm \<in> set names. findIngredientInDatabase nm \<noteq> Some Inherited"
    using Cons.prems by simp
  from Cons.IH [OF this, of "Suc k" "acc @ [r]"]
  obtain rs where rs: "analyze_loop remote (Suc k) names (acc @ [r]) = Inr ((acc @ [r]) @ rs)"
    "length rs = length names" "map name rs = map titleCase names"
    "\<forall>i < length names. analyzeIngredient (remote (Suc k + i)) (names ! i) = Inr (rs ! i)"
    by blast
  have "analyze_loop remote k (nm # names) acc = Inr (acc @ (r # rs))"
    using r rs(1) by simp
  moreover have "length (r # rs) = length (nm # names)" using rs(2) by simp
  moreover have "map name (r # rs) = map titleCase (nm # names)"
    using rs(3) analyzeIngredient_name [OF r] by simp
  moreover have "\<forall>i < length (nm # names).
      analyzeIngredient (remote (k + i)) ((nm # names) ! i) = Inr ((r # rs) ! i)"
  proof (intro allI impI)
    fix i assume "i < length (nm # names)"
    then show "analyzeIngredient (remote (k + i)) ((nm # names) ! i) = Inr ((r # rs) ! i)"
      using r rs(4) by (cases i) simp_all
  qed
  ultimately show ?case by blast
qed

lemma analyzeIngredients_pipeline:
  assumes "\<forall>nm \<in> set (tokens_spec s). findIngredientInDatabase nm \<noteq> Some Inherited"
  shows "\<exists>rs. analyzeIngredients remote s = Inr rs \<and> length rs = length (tokens_spec s)
           \<and> map name rs = map titleCase (tokens_spec s)
           \<and> (\<forall>i < length rs. analyzeIngredient (remote i) (tokens_spec s ! i) = Inr (rs ! i))"
  using analyze_loop_records [OF assms, of remote 0 "[]"]
  by (auto simp: analyzeIngredients_def ingredientsArray_tokens_spec)

lemma analyzeIngredients_whitespace:
  "\<forall>c \<in> set s. is_space c \<Longrightarrow> analyzeIngredients remote s = Inr []"
  by (simp add: analyzeIngredients_def ingredientsArray_whitespace)

section \<open>Scores, levels and the merge priority\<close>

lemma getSafetyLevel_band: "getSafetyLevel (Num s) = band s"
  by (simp add: getSafetyLevel_def band_def js_le_def)

lemma getSafetyLevel_nonempty: "getSafetyLevel v \<noteq> []"
  by (simp add: getSafetyLevel_def)

lemma calculateDefaultScore_bounds:
  "1 \<le> calculateDefaultScore nm \<and> calculateDefaultScore nm \<le> 10"
  using calculateDefaultScore_range [of nm] by auto

lemma lookup_baseScore:
  assumes "findIngredientInDatabase nm = Some m" and "m \<noteq> Inherited"
  shows "\<exists>s. match_baseScore m = Num s \<and> 1 \<le> s \<and> s \<le> 10"
proof -
  obtain e where e: "m = Entry e" using assms(2) by (cases m) auto
  then have "e \<in> snd ` set ingredientDatabase"
    using assms(1) findIngredientInDatabase_entry by blast
  then show ?thesis using baseScore_range e by (simp add: match_baseScore_def)
qed

lemma fallback_score:
  assumes "findIngredientInDatabase nm \<noteq> Some Inherited"
  shows "\<exists>s. (case findIngredientInDatabase nm of Some m \<Rightarrow> match_baseScore m
               | None \<Rightarrow> Num (calculateDefaultScore nm)) = Num s \<and> 1 \<le> s \<and> s \<le> 10"
proof (cases "findIngredientInDatabase nm")
  case None
  then show ?thesis using calculateDefaultScore_bounds by simp
next
  case (Some m)
  then have "m \<noteq> Inherited" using assms by auto
  then show ?thesis using lookup_baseScore [OF Some] Some by simp
qed

lemma parsed_score_shape:
  "score_of (parseScore t) = Null \<or> (\<exists>s. score_of (parseScore t) = Num s \<and> 1 \<le> s \<and> s \<le> 10)"
  by (cases "parseScore t") (auto simp: score_of_def dest: parseScore_range)

lemma html_record_score:
  assumes "findIngredientInDatabase nm \<noteq> Some Inherited" and "html_record l nm = Inr p"
  shows "(\<exists>s. p_ewgScore p = Num s \<and> 1 \<le> s \<and> s \<le> 10)
         \<and> p_safetyLevel p = getSafetyLevel (p_ewgScore p)"
proof -
  let ?score = "score_of (parseScore (Some (trim (score_text l))))"
  let ?final = "if truthy_score ?score then ?score
                else case findIngredientInDatabase nm of Some m \<Rightarrow> match_baseScore m
                     | None \<Rightarrow> Num (calculateDefaultScore nm)"
  have p: "p_ewgScore p = ?final" "p_safetyLevel p = getSafetyLevel ?final"
    using assms(2) by (auto simp: html_record_def Let_def split: sum.splits)
  have "\<exists>s. ?final = Num s \<and> 1 \<le> s \<and> s \<le> 10"
  proof (cases "truthy_score ?score")
    case True
    then show ?thesis
      using parsed_score_shape [of "Some (trim (score_text l))"]
      by (auto simp: truthy_score_def)
  next
    case False
    then show ?thesis using fallback_score [OF assms(1)] by simp
  qed
  then show ?thesis using p by simp
qed

lemma merge_record_score:
  assumes "merge_record ewgData dbMatch nm = Inr r"
  shows "ewgScore r =
     (let remoteScore = (case ewgData of None \<Rightarrow> Undefined | Some p \<Rightarrow> p_ewgScore p) in
      if truthy_score remoteScore then remoteScore
      else case dbMatch of Some m \<Rightarrow> match_baseScore m
           | None \<Rightarrow> Num (calculateDefaultScore nm))"
    and "safetyLevel r =
     (case ewgData of Some p \<Rightarrow>
        if p_safetyLevel p \<noteq> [] then p_safetyLevel p
        else (case dbMatch of Some m \<Rightarrow> getSafetyLevel (match_baseScore m)
              | None \<Rightarrow> getSafetyLevel (Num (calculateDefaultScore nm)))
      | None \<Rightarrow> (case dbMatch of Some m \<Rightarrow> getSafetyLevel (match_baseScore m)
              | None \<Rightarrow> getSafetyLevel (Num (calculateDefaultScore nm))))"
  using assms
  by (auto simp: merge_record_def Let_def truthy_str_def split: sum.splits option.splits)

lemma analyzeIngredient_score_range:
  assumes "findIngredientInDatabase nm \<noteq> Some Inherited"
    and "analyzeIngredient response nm = Inr r"
  shows "\<exists>s. ewgScore r = Num s \<and> 1 \<le> s \<and> s \<le> 10"
proof -
  obtain d where d: "fetchEWGData response nm = Inr d" using fetchEWGData_returns by blast
  then have m: "merge_record d (findIngredientInDatabase nm) nm = Inr r"
    using assms(2) by (simp add: analyzeIngredient_def)
  let ?remote = "case d of None \<Rightarrow> Undefined | Some p \<Rightarrow> p_ewgScore p"
  have shape: "?remote = Undefined \<or> ?remote = Null \<or> (\<exists>s. ?remote = Num s \<and> 1 \<le> s \<and> s \<le> 10)"
  proof (cases d)
    case None
    then show ?thesis by simp
  next
    case (Some p)
    show ?thesis
    proof (cases response)
      case (Structured products)
      then obtain x xs where "products = x # xs"
        using d Some by (cases products) (auto simp: fetchEWGData_def fetchEWGData_try_def)
      then have "p = structured_record x nm"
        using d Some Structured by (simp add: fetchEWGData_structured)
      then show ?thesis
        using Some parsed_score_shape [of "product_score x"] by (auto simp: structured_record_def)
    next
      case (Html listing)
      then obtain l where "listing = Some l" "html_record l nm = Inr p"
        using d Some
        by (auto simp: fetchEWGData_def fetchEWGData_try_def split: option.splits sum.splits)
      then show ?thesis using html_record_score [OF assms(1)] Some by auto
    qed (use d Some in \<open>auto simp: fetchEWGData_def fetchEWGData_try_def\<close>)
  qed
  have e: "ewgScore r = (if truthy_score ?remote then ?remote
      else case findIngredientInDatabase nm of Some m \<Rightarrow> match_baseScore m
           | None \<Rightarrow> Num (calculateDefaultScore nm))"
    using merge_record_score(1) [OF m] by (simp add: Let_def)
  show ?thesis
  proof (cases "truthy_score ?remote")
    case True
    then show ?thesis using shape e by (auto simp: truthy_score_def)
  next
    case False
    then show ?thesis using fallback_score [OF assms(1)] e by simp
  qed
qed

lemma analyzeIngredient_level_consistent:
  assumes "findIngredientInDatabase nm \<noteq> Some Inherited"
    and "analyzeIngredient response nm = Inr r"
    and "\<And>x xs. response = Structured (x # xs) \<Longrightarrow> parseScore (product_score x) \<noteq> None"
  shows "safetyLevel r = getSafetyLevel (ewgScore r)"
proof -
  obtain d where d: "fetchEWGData response nm = Inr d" using fetchEWGData_returns by blast
  then have m: "merge_record d (findIngredientInDatabase nm) nm = Inr r"
    using assms(2) by (simp add: analyzeIngredient_def)
  note ms = merge_record_score [OF m]
  show ?thesis
  proof (cases d)
    case None
    then show ?thesis using ms by (auto simp: Let_def truthy_score_def split: option.splits)
  next
    case (Some p)
    have good: "(\<exists>s. p_ewgScore p = Num s \<and> 1 \<le> s \<and> s \<le> 10)
         \<and> p_safetyLevel p = getSafetyLevel (p_ewgScore p)"
    proof (cases response)
      case (Structured products)
      then obtain x xs where px: "products = x # xs"
        using d Some by (cases products) (auto simp: fetchEWGData_def fetchEWGData_try_def)
      then have p: "p = structured_record x nm"
        using d Some Structured by (simp add: fetchEWGData_structured)
      obtain s where s: "parseScore (product_score x) = Some s"
        using assms(3) Structured px by blast
      then have "1 \<le> s \<and> s \<le> 10" by (rule parseScore_range)
      then show ?thesis using p s by (simp add: structured_record_def score_of_def)
    next
      case (Html listing)
      then obtain l where "listing = Some l" "html_record l nm = Inr p"
        using d Some
        by (auto simp: fetchEWGData_def fetchEWGData_try_def split: option.splits sum.splits)
      then show ?thesis using html_record_score [OF assms(1)] by blast
    qed (use d Some in \<open>auto simp: fetchEWGData_def fetchEWGData_try_def\<close>)
    then obtain s where s: "p_ewgScore p = Num s" "1 \<le> s" by blast
    then have "truthy_score (p_ewgScore p)" by (simp add: truthy_score_def)
    then have "ewgScore r = p_ewgScore p" using ms(1) Some by (simp add: Let_def)
    moreover have "safetyLevel r = p_safetyLevel p"
      using ms(2) Some good getSafetyLevel_nonempty by simp
    ultimately show ?thesis using good by simp
  qed
qed

lemma merge_record_fields:
  assumes "merge_record ewgData dbMatch nm = Inr r"
  shows "func r = (let remoteFunction = (case ewgData of None \<Rightarrow> None | Some p \<Rightarrow> p_func p) in
            if truthy_str remoteFunction then remoteFunction
            else case dbMatch of Some m \<Rightarrow> match_category m
                 | None \<Rightarrow> Some (getIngredientFunction nm))"
    and "Inr (reasonForConcern r) =
           (let remoteReason = (case ewgData of None \<Rightarrow> None | Some p \<Rightarrow> p_reasonForConcern p) in
            if truthy_str remoteReason then Inr (the remoteReason)
            else case dbMatch of Some m \<Rightarrow> match_concerns_join m
                 | None \<Rightarrow> Inr (getDefaultConcern (Num (calculateDefaultScore nm))))"
    and "scientificName r = match_scientificName dbMatch"
    and "benefits r = match_benefits dbMatch"
    and "restrictions r = match_restrictions dbMatch"
    and "naturalAlternatives r = match_naturalAlternatives dbMatch"
    and "researchLinks r = match_researchLinks dbMatch"
  using assms
  by (auto simp: merge_record_def Let_def split: sum.splits)

lemma merge_priority_func:
  assumes "merge_record ewgData dbMatch nm = Inr r" and "dbMatch \<noteq> Some Inherited"
  shows "func r = Some (pick (supplied_str (Option.bind ewgData p_func))
                             (map_option category (entry_of dbMatch))
                             (getIngredientFunction nm))"
  using merge_record_fields(1) [OF assms(1)] assms(2)
  by (auto simp: Let_def pick_def supplied_str_def truthy_str_def entry_of_def match_category_def
      split: option.splits db_match.splits)

lemma merge_priority_score:
  assumes "merge_record ewgData dbMatch nm = Inr r" and "dbMatch \<noteq> Some Inherited"
  shows "ewgScore r = Num (pick (Option.bind ewgData (\<lambda>p. supplied_score (p_ewgScore p)))
                                (map_option baseScore (entry_of dbMatch))
                                (calculateDefaultScore nm))"
  using merge_record_score(1) [OF assms(1)] assms(2)
  by (auto simp: Let_def pick_def supplied_score_def truthy_score_def entry_of_def
      match_baseScore_def split: option.splits db_match.splits score_val.splits)

lemma merge_priority_reason:
  assumes "merge_record ewgData dbMatch nm = Inr r" and "dbMatch \<noteq> Some Inherited"
  shows "reasonForConcern r = pick (supplied_str (Option.bind ewgData p_reasonForConcern))
                                   (map_option (\<lambda>e. js_join '', '' (concerns e)) (entry_of dbMatch))
                                   (getDefaultConcern (Num (calculateDefaultScore nm)))"
  using merge_record_fields(2) [OF assms(1)] assms(2)
  by (auto simp: Let_def pick_def supplied_str_def truthy_str_def entry_of_def
      match_concerns_join_def split: option.splits db_match.splits if_splits)

lemma merge_priority_use:
  assumes "merge_record ewgData dbMatch nm = Inr r"
  shows "commonUse r = pick (supplied_str (map_option p_commonUse ewgData)) None (getCommonUse nm)"
  using merge_record_commonUse [OF assms]
  by (auto simp: pick_def supplied_str_def truthy_str_def split: option.splits)

lemma merge_curated_only:
  assumes "merge_record ewgData dbMatch nm = Inr r"
  shows "scientificName r = Option.bind (entry_of dbMatch) entry_scientificName"
    and "benefits r = map_option (\<lambda>e. js_join '', '' (entry_benefits e)) (entry_of dbMatch)"
    and "restrictions r =
           Option.bind (entry_of dbMatch) (\<lambda>e. map_option (js_join '', '') (entry_restrictions e))"
    and "naturalAlternatives r =
           Option.bind (entry_of dbMatch) (\<lambda>e. map_option (js_join '', '') (entry_naturalAlternatives e))"
    and "researchLinks r =
           Option.bind (entry_of dbMatch) (\<lambda>e. map_option (js_join [CHR 0x0A]) (entry_researchLinks e))"
  using merge_record_fields(3-7) [OF assms]
  by (auto simp: entry_of_def match_scientificName_def match_benefits_def match_restrictions_def
      match_naturalAlternatives_def match_researchLinks_def split: option.splits db_match.splits)

lemma analyzeIngredients_scores:
  assumes "\<forall>nm \<in> set (tokens_spec s). findIngredientInDatabase nm \<noteq> Some Inherited"
    and "analyzeIngredients remote s = Inr rs" and "r \<in> set rs"
  shows "\<exists>v. ewgScore r = Num v \<and> 1 \<le> v \<and> v \<le> 10"
proof -
  obtain rs' where rs': "analyzeIngredients remote s = Inr rs'" "length rs' = length (tokens_spec s)"
    "\<forall>i < length rs'. analyzeIngredient (remote i) (tokens_spec s ! i) = Inr (rs' ! i)"
    using analyzeIngredients_pipeline [OF assms(1), of remote] by blast
  then have eq: "rs' = rs" using assms(2) by simp
  obtain i where i: "i < length rs" "rs ! i = r"
    using assms(3) by (auto simp: in_set_conv_nth)
  then have a: "analyzeIngredient (remote i) (tokens_spec s ! i) = Inr r"
    using rs'(3) eq by auto
  have "tokens_spec s ! i \<in> set (tokens_spec s)" using i(1) rs'(2) eq by simp
  then have "findIngredientInDatabase (tokens_spec s ! i) \<noteq> Some Inherited"
    using assms(1) by blast
  then show ?thesis using a by (rule analyzeIngredient_score_range)
qed

section \<open>The claims\<close>

text \<open>
  C1. The \<open>safetyLevel\<close> of a returned record should be the band of its \<open>ewgScore\<close>. It is
  (\<open>analyzeIngredient_level_consistent\<close>) unless the structured response carries a score
  text that \<open>parseScore\<close> cannot read: then the adapter computes the level from \<open>null\<close>,
  which compares as 0, while the merge takes the score from the database or the heuristic.
  For \<open>paraben\<close> and a listing without a score the record has score 8 and level
  \<open>Low Concern\<close>.
\<close>

theorem C1_level_disagrees_with_score:
  "(case analyzeIngredients
           (\<lambda>k. Structured [\<lparr> product_score = None, product_concerns = Some [],
                                product_category = None \<rparr>])
           ''paraben'' of
      Inr [r] \<Rightarrow> ewgScore r = Num 8 \<and> safetyLevel r = ''Low Concern''
                  \<and> band 8 = ''High Concern''
    | _ \<Rightarrow> False)"
  by code_simp

text \<open>
  C2. Each composite field should come from the first source that supplies it: the remote
  record, the curated entry, the heuristic. It does (\<open>merge_priority_func\<close>,
  \<open>merge_priority_score\<close>, \<open>merge_priority_reason\<close>, \<open>merge_priority_use\<close>,
  \<open>merge_curated_only\<close>) unless the token names an inherited property of the table object.
  For \<open>constructor\<close> there is no curated entry, exact or similar, and the remote record
  below supplies no category; the heuristic would answer \<open>Other/Unknown\<close>, yet the
  \<open>function\<close> of the record is undefined.
\<close>

theorem C2_function_from_no_source:
  "map_of ingredientDatabase ''constructor'' = None
   \<and> best_match ''constructor'' ingredientDatabase None 0 = None
   \<and> getIngredientFunction ''constructor'' = ''Other/Unknown''
   \<and> (case analyzeIngredients
           (\<lambda>k. Structured [\<lparr> product_score = None, product_concerns = Some [''Irritation''],
                                product_category = None \<rparr>])
           ''constructor'' of
      Inr [r] \<Rightarrow> func r = None
    | _ \<Rightarrow> False)"
  by code_simp

text \<open>
  C3. Every score should be an integer from 1 to 10. The results of \<open>parseScore\<close>
  (\<open>parseScore_range\<close>), the curated base scores (\<open>baseScore_range\<close>) and the heuristic
  scores (\<open>calculateDefaultScore_range\<close>) are, and so is the \<open>ewgScore\<close> of every record
  (\<open>analyzeIngredients_scores\<close>) unless a token names an inherited property of the table
  object: for \<open>constructor\<close> and a listing without a score the \<open>ewgScore\<close> of the record is
  undefined.
\<close>

theorem C3_score_undefined:
  "(case analyzeIngredients
           (\<lambda>k. Structured [\<lparr> product_score = None, product_concerns = Some [''Irritation''],
                                product_category = Some ''Solvent'' \<rparr>])
           ''constructor'' of
      Inr [r] \<Rightarrow> ewgScore r = Undefined
    | _ \<Rightarrow> False)"
  by code_simp

text \<open>
  C4. \<open>fetchEWGData\<close> never propagates an exception: whatever the service answers and
  whatever the ingredient, it returns a value, and an error raised inside its \<open>try\<close> block
  (a rejected fetch, a body that is not JSON, markup whose parsing raises, a type error
  while the record is built) makes it return \<open>null\<close>; a response that is not ok gives
  \<open>null\<close> as well.
\<close>

theorem C4_fetch_never_raises:
  "(\<exists>r. fetchEWGData response ingredient = Inr r)
   \<and> (\<forall>e. fetchEWGData_try response ingredient = Inl e
          \<longrightarrow> fetchEWGData response ingredient = Inr None)
   \<and> fetchEWGData FetchRejected ingredient = Inr None
   \<and> fetchEWGData NotOk ingredient = Inr None
   \<and> fetchEWGData JsonRejected ingredient = Inr None
   \<and> fetchEWGData HtmlRaises ingredient = Inr None"
proof -
  have "fetchEWGData FetchRejected ingredient = Inr None"
    and "fetchEWGData NotOk ingredient = Inr None"
    and "fetchEWGData JsonRejected ingredient = Inr None"
    and "fetchEWGData HtmlRaises ingredient = Inr None"
    by (simp_all add: fetchEWGData_def fetchEWGData_try_def)
  then show ?thesis
    using fetchEWGData_returns [of response ingredient] fetchEWGData_caught [of response ingredient]
    by blast
qed

theorem C4_fetch_never_raises_witness:
  "fetchEWGData_try (Html (Some \<lparr> score_text = '' '', concern_items = [], function_text = [],
        use_text = [] \<rparr>)) ''constructor'' = Inl TypeError
   \<and> fetchEWGData (Html (Some \<lparr> score_text = '' '', concern_items = [], function_text = [],
        use_text = [] \<rparr>)) ''constructor'' = Inr None"
proof -
  let ?l = "\<lparr> score_text = '' '', concern_items = [], function_text = [], use_text = [] \<rparr>"
  have db: "findIngredientInDatabase ''constructor'' = Some Inherited"
    by code_simp
  have raised: "fetchEWGData_try (Html (Some ?l)) ''constructor'' = Inl TypeError"
    by (simp add: fetchEWGData_try_def html_record_def db match_concerns_join_def Let_def)
  with C4_fetch_never_raises [of "Html (Some ?l)" "''constructor''"] show ?thesis
    by blast
qed


text \<open>
  C6, as the code has it. \<open>findIngredientInDatabase\<close> lower-cases the name and does not trim
  it. When the lower-cased name is a key of the table, that entry is returned at once.
  Otherwise, for a name that is not the name of an inherited property, the table is scanned
  in declaration order: the result is none when no key has a similarity above 0.8, and it is
  the first entry whose similarity is the maximum when that maximum is above 0.8. The
  lookup of \<open>xyzxyzxyz\<close> returns none.
\<close>

theorem C6_lookup:
  "(map_of ingredientDatabase (toLowerCase nm) = Some e
      \<longrightarrow> findIngredientInDatabase nm = Some (Entry e))
   \<and> (map_of ingredientDatabase (toLowerCase nm) = None \<and> toLowerCase nm \<notin> set inherited_keys
      \<longrightarrow> ((\<forall>(k, v) \<in> set ingredientDatabase.
               calculateStringSimilarity (toLowerCase nm) k \<le> 8 / 10)
             \<longrightarrow> findIngredientInDatabase nm = None)
          \<and> (\<forall>before k v after.
               ingredientDatabase = before @ (k, v) # after
               \<and> calculateStringSimilarity (toLowerCase nm) k > 8 / 10
               \<and> (\<forall>(k', v') \<in> set before. calculateStringSimilarity (toLowerCase nm) k'
                      < calculateStringSimilarity (toLowerCase nm) k)
               \<and> (\<forall>(k', v') \<in> set after. calculateStringSimilarity (toLowerCase nm) k'
                      \<le> calculateStringSimilarity (toLowerCase nm) k)
               \<longrightarrow> findIngredientInDatabase nm = Some (Entry v)))
   \<and> findIngredientInDatabase ''xyzxyzxyz'' = None"
proof -
  let ?n = "toLowerCase nm"
  have exact: "findIngredientInDatabase nm = Some (Entry e)"
    if "map_of ingredientDatabase ?n = Some e"
    using that by (simp add: findIngredientInDatabase_def)
  have fuzzy: "findIngredientInDatabase nm = map_option Entry (best_match ?n ingredientDatabase None 0)"
    if "map_of ingredientDatabase ?n = None" "?n \<notin> set inherited_keys"
    using that by (simp add: findIngredientInDatabase_def)
  have none: "findIngredientInDatabase nm = None"
    if "map_of ingredientDatabase ?n = None" "?n \<notin> set inherited_keys"
      "\<forall>(k, v) \<in> set ingredientDatabase. calculateStringSimilarity ?n k \<le> 8 / 10"
    using fuzzy [OF that(1,2)] best_match_none [OF that(3)] by simp
  have best: "findIngredientInDatabase nm = Some (Entry v)"
    if "map_of ingredientDatabase ?n = None" "?n \<notin> set inherited_keys"
      and "ingredientDatabase = before @ (k, v) # after"
      and "calculateStringSimilarity ?n k > 8 / 10"
      and "\<forall>(k', v') \<in> set before. calculateStringSimilarity ?n k' < calculateStringSimilarity ?n k"
      and "\<forall>(k', v') \<in> set after. calculateStringSimilarity ?n k' \<le> calculateStringSimilarity ?n k"
    for before k v after
  proof -
    have "0 < calculateStringSimilarity ?n k" using that(4) by simp
    then have "best_match ?n (before @ (k, v) # after) None 0 = Some v"
      using that(4,5,6) by (intro best_match_first_maximum)
    then show ?thesis using fuzzy [OF that(1,2)] that(3) by simp
  qed
  have ex: "findIngredientInDatabase ''xyzxyzxyz'' = None"
    by code_simp
  from exact none best ex show ?thesis by blast
qed

theorem C6_lookup_witness:
  "fst (ingredientDatabase ! 5) = ''glycerin''
   \<and> findIngredientInDatabase ''Glycerin'' = Some (Entry (snd (ingredientDatabase ! 5)))
   \<and> findIngredientInDatabase ''Glycerine'' = Some (Entry (snd (ingredientDatabase ! 5)))"
proof -
  let ?before = "take 5 ingredientDatabase" and ?after = "drop 6 ingredientDatabase"
  let ?k = "fst (ingredientDatabase ! 5)" and ?v = "snd (ingredientDatabase ! 5)"
  have key: "?k = ''glycerin''" by code_simp
  have exact: "map_of ingredientDatabase (toLowerCase ''Glycerin'') = Some ?v"
    by code_simp
  have low: "toLowerCase ''Glycerine'' = ''glycerine''" by code_simp
  have h1: "map_of ingredientDatabase ''glycerine'' = None \<and> ''glycerine'' \<notin> set inherited_keys"
    by code_simp
  have len: "5 < length ingredientDatabase" by code_simp
  have h2: "ingredientDatabase = ?before @ (?k, ?v) # ?after"
    using id_take_nth_drop [OF len] by simp
  have h3: "calculateStringSimilarity ''glycerine'' ?k > 8 / 10"
    by code_simp
  have h4: "\<forall>(k', v') \<in> set ?before. calculateStringSimilarity ''glycerine'' k'
      < calculateStringSimilarity ''glycerine'' ?k"
    by code_simp
  have h5: "\<forall>(k', v') \<in> set ?after. calculateStringSimilarity ''glycerine'' k'
      \<le> calculateStringSimilarity ''glycerine'' ?k"
    by code_simp
  have a: "findIngredientInDatabase ''Glycerin'' = Some (Entry ?v)"
    using C6_lookup [of "''Glycerin''" ?v] exact by blast
  have b: "findIngredientInDatabase ''Glycerine'' = Some (Entry ?v)"
    using C6_lookup [of "''Glycerine''"] h1 h2 h3 h4 h5 unfolding low by blast
  from key a b show ?thesis by blast
qed

theorem C6_no_trim_counterexample:
  "toLowerCase (trim ''   glycerin'') = ''glycerin''
   \<and> map_of ingredientDatabase ''glycerin'' \<noteq> None
   \<and> findIngredientInDatabase ''   glycerin'' = None"
  by code_simp

text \<open>
  C7, as the code has it. \<open>parseScore\<close> returns none for an undefined or empty text. For a
  text with a digit it returns the number denoted by the first maximal run of digits,
  clamped to 1..10. For a text without digits it tests, in order and ignoring case, whether
  one of \<open>low, safe, minimal, good\<close> occurs as a whole word (result 2), then one of
  \<open>moderate, medium, average\<close> (result 5), then one of \<open>high, unsafe, dangerous, poor\<close>
  (result 8), and returns none otherwise. \<open>Score: 7/10\<close> gives 7 and
  \<open>This is a low risk ingredient\<close> gives 2.
\<close>

theorem C7_parseScore_whole_words:
  "parseScore None = None \<and> parseScore (Some []) = None
   \<and> (list_ex is_digit t \<longrightarrow>
        (\<exists>pre ds post. t = pre @ ds @ post \<and> (\<forall>c \<in> set pre. \<not> is_digit c) \<and> ds \<noteq> [] \<and>
           (\<forall>c \<in> set ds. is_digit c) \<and> (post = [] \<or> \<not> is_digit (hd post))))
   \<and> (\<forall>pre ds post.
        t = pre @ ds @ post \<and> (\<forall>c \<in> set pre. \<not> is_digit c) \<and> ds \<noteq> [] \<and>
        (\<forall>c \<in> set ds. is_digit c) \<and> (post = [] \<or> \<not> is_digit (hd post))
        \<longrightarrow> parseScore (Some t) = Some (max 1 (min 10 (decimal ds))))
   \<and> (t \<noteq> [] \<and> \<not> list_ex is_digit t \<longrightarrow>
        parseScore (Some t) =
          (if whole_word riskLevels_low t then Some 2
           else if whole_word riskLevels_moderate t then Some 5
           else if whole_word riskLevels_high t then Some 8
           else None))
   \<and> parseScore (Some ''Score: 7/10'') = Some 7
   \<and> parseScore (Some ''This is a low risk ingredient'') = Some 2"
proof -
  have a: "parseScore None = None" "parseScore (Some []) = None"
    by (simp_all add: parseScore_def)
  have b: "parseScore (Some t) = Some (max 1 (min 10 (decimal ds)))"
    if h: "t = pre @ ds @ post" "\<forall>c \<in> set pre. \<not> is_digit c" "ds \<noteq> []"
      "\<forall>c \<in> set ds. is_digit c" "post = [] \<or> \<not> is_digit (hd post)" for pre ds post
  proof -
    have fd: "first_digits t = ds" unfolding h(1) using h(2-5) by (rule first_digits_run)
    obtain d where "d \<in> set ds" using h(3) by (cases ds) auto
    then have "list_ex is_digit t" using h(1,4) by (auto simp: list_ex_iff)
    moreover have "t \<noteq> []" using h(1,3) by simp
    ultimately show ?thesis by (simp add: parseScore_def fd parseInt_decimal)
  qed
  have c: "parseScore (Some t) =
          (if whole_word riskLevels_low t then Some 2
           else if whole_word riskLevels_moderate t then Some 5
           else if whole_word riskLevels_high t then Some 8
           else None)"
    if "t \<noteq> []" "\<not> list_ex is_digit t"
    using that by (simp add: parseScore_def rx_word_test_whole_word riskLevels_nonempty)
  have d: "parseScore (Some ''Score: 7/10'') = Some 7"
    by code_simp
  have e: "parseScore (Some ''This is a low risk ingredient'') = Some 2"
    by code_simp
  from a b c d e digit_run_exists [of t] show ?thesis by blast
qed

theorem C7_parseScore_whole_words_witness:
  "parseScore (Some ''about 42 points'') = Some 10
   \<and> parseScore (Some ''Unsafe'') = Some 8"
proof -
  have dec: "decimal ''42'' = 42"
    by (simp add: decimal_Cons decimal_def)
  have split: "''about 42 points'' = ''about '' @ ''42'' @ '' points''"
    by simp
  have pre: "\<forall>c \<in> set ''about ''. \<not> is_digit c" by (simp add: is_digit_def)
  have ds: "\<forall>c \<in> set ''42''. is_digit c" by (simp add: is_digit_def)
  have post: "'' points'' = [] \<or> \<not> is_digit (hd '' points'')" by (simp add: is_digit_def)
  have nodigit: "''Unsafe'' \<noteq> [] \<and> \<not> list_ex is_digit ''Unsafe''" by (simp add: is_digit_def)
  have w1: "\<not> rx_word_test riskLevels_low ''Unsafe''" by code_simp
  have w2: "\<not> rx_word_test riskLevels_moderate ''Unsafe''" by code_simp
  have w3: "rx_word_test riskLevels_high ''Unsafe''" by code_simp
  have w: "\<not> whole_word riskLevels_low ''Unsafe''" "\<not> whole_word riskLevels_moderate ''Unsafe''"
    "whole_word riskLevels_high ''Unsafe''"
    using w1 w2 w3 by (simp_all add: rx_word_test_whole_word riskLevels_nonempty)
  have "parseScore (Some ''about 42 points'') = Some (max 1 (min 10 (decimal ''42'')))"
    using C7_parseScore_whole_words [of "''about 42 points''"] split pre ds post by blast
  moreover have "parseScore (Some ''Unsafe'') = Some 8"
    using C7_parseScore_whole_words [of "''Unsafe''"] nodigit w by simp
  ultimately show ?thesis by (simp add: dec)
qed

theorem C7_unanchored_counterexample:
  "\<not> list_ex is_digit ''unsafe''
   \<and> occurs_anywhere riskLevels_low ''unsafe''
   \<and> parseScore (Some ''unsafe'') = Some 8
   \<and> parseScore (Some ''unsafe'') \<noteq> Some 2"
  by code_simp

text \<open>
  C8. The input is split, trimmed, filtered and lower-cased as the specification says
  (\<open>ingredientsArray_tokens_spec\<close>), an empty or all-whitespace input gives the empty
  sequence (\<open>analyzeIngredients_whitespace\<close>), and there is one record per token, in order
  (\<open>analyzeIngredients_pipeline\<close>), unless a token names an inherited property of the table
  object: with the service unreachable, the list \<open>Water, Constructor\<close> has two tokens and
  the call raises a type error instead of returning two records.
\<close>

theorem C8_token_raises:
  "ingredientsArray ''Water, Constructor'' = [''water'', ''constructor'']
   \<and> analyzeIngredients (\<lambda>k. FetchRejected) ''Water, Constructor'' = Inl TypeError"
  by code_simp

text \<open>
  C9. \<open>calculateStringSimilarity a b\<close> is \<open>(maxLen - levenshtein a b) / maxLen\<close> with
  \<open>maxLen\<close> the larger of the two lengths and \<open>levenshtein\<close> the classic unit-cost edit
  distance; it is 1 when both strings are empty, lies between 0 and 1 for all strings, and
  is 1 on two equal strings.
\<close>

theorem C9_similarity:
  "calculateStringSimilarity a b =
     (if a = [] \<and> b = [] then 1
      else (of_nat (max (length a) (length b)) - of_nat (levenshtein a b))
             / of_nat (max (length a) (length b)))
   \<and> calculateStringSimilarity [] [] = 1
   \<and> 0 \<le> calculateStringSimilarity a b \<and> calculateStringSimilarity a b \<le> 1
   \<and> calculateStringSimilarity x x = 1"
proof -
  have "calculateStringSimilarity x x = 1"
    by (simp add: similarity_formula levenshtein_same)
  moreover have "calculateStringSimilarity [] [] = 1"
    by (simp add: similarity_formula)
  ultimately show ?thesis
    using similarity_formula [of a b] similarity_bounds [of a b] by blast
qed

text \<open>
  C10. When the service answers in the structured shape with a non-empty product list, the
  \<open>commonUse\<close> of the adapter's record is \<open>getCommonUse\<close> of the queried name, and so is the
  \<open>commonUse\<close> of the merged record; \<open>getCommonUse\<close> never yields the empty string, and
  nothing read from the response enters the field. The merged record exists unless the
  database lookup yields an inherited property.
\<close>

theorem C10_structured_commonUse:
  assumes "response = Structured (p # ps)"
  shows "fetchEWGData response nm = Inr (Some (structured_record p nm))
   \<and> p_commonUse (structured_record p nm) = getCommonUse nm
   \<and> getCommonUse nm \<noteq> []
   \<and> (\<forall>r. analyzeIngredient response nm = Inr r \<longrightarrow> commonUse r = getCommonUse nm)
   \<and> (findIngredientInDatabase nm \<noteq> Some Inherited
        \<longrightarrow> (\<exists>r. analyzeIngredient response nm = Inr r))"
proof -
  have f: "fetchEWGData response nm = Inr (Some (structured_record p nm))"
    using assms by (simp add: fetchEWGData_structured)
  have u: "p_commonUse (structured_record p nm) = getCommonUse nm"
    by (simp add: structured_record_def)
  have a: "analyzeIngredient response nm =
      merge_record (Some (structured_record p nm)) (findIngredientInDatabase nm) nm"
    by (simp add: analyzeIngredient_def f)
  have c: "commonUse r = getCommonUse nm" if "analyzeIngredient response nm = Inr r" for r
    using merge_record_commonUse [of "Some (structured_record p nm)" _ nm r] that
    by (simp add: a u)
  have e: "\<exists>r. analyzeIngredient response nm = Inr r"
    if "findIngredientInDatabase nm \<noteq> Some Inherited"
    using merge_record_succeeds [OF that] by (simp add: a)
  from f u getCommonUse_nonempty [of nm] c e show ?thesis by blast
qed

theorem C10_structured_commonUse_witness:
  "\<exists>r. analyzeIngredient (Structured [\<lparr> product_score = Some ''3'',
          product_concerns = Some [''Irritation''], product_category = Some ''Humectant'' \<rparr>])
        ''glycerin'' = Inr r
      \<and> commonUse r = ''Moisturizing agent''"
proof -
  let ?p = "\<lparr> product_score = Some ''3'', product_concerns = Some [''Irritation''],
             product_category = Some ''Humectant'' \<rparr>"
  have db: "findIngredientInDatabase ''glycerin'' \<noteq> Some Inherited"
    by code_simp
  have use: "getCommonUse ''glycerin'' = ''Moisturizing agent''"
    by code_simp
  from C10_structured_commonUse [OF refl, of ?p "[]" "''glycerin''"] db use
  show ?thesis by metis
qed

end
